theory Spec2Isabelle
  imports Complex_Main "HOL-Library.Log_Nat"
begin

section \<open>Numbers\<close>

text \<open>
  A JavaScript number is an IEEE 754 binary64 value: a finite value, one of the two zeros,
  one of the two infinities, or NaN. \<open>Finite r\<close> is the finite value \<open>r\<close>, with
  \<open>Finite 0\<close> the positive zero; \<open>NegZero\<close> is the negative zero. The arithmetic below
  computes the exact result and rounds it to the nearest binary64 value, a tie going to
  the even significand, as the language does; a result beyond the largest finite value
  overflows to an infinity and a result too small underflows to a zero that keeps the sign.
\<close>

datatype number = Finite real | NegZero | PosInf | NegInf | NaN

text \<open>\<open>pow2 e\<close> is \<open>2\<close> to the power \<open>e\<close>, for an integer \<open>e\<close>.\<close>

definition pow2 :: "int \<Rightarrow> real" where
  "pow2 e = (if 0 \<le> e then 2 ^ nat e else 1 / 2 ^ nat (- e))"

text \<open>The binary exponent of \<open>x > 0\<close>: the \<open>e\<close> with \<open>2^e \<le> x < 2^(e+1)\<close>.\<close>

definition expo_below :: "real \<Rightarrow> int \<Rightarrow> int" where
  "expo_below x k = (if x * 2 ^ nat k = 1 then - k else - k - 1)"

definition expo :: "real \<Rightarrow> int" where
  "expo x = (if 1 \<le> x then bitlen \<lfloor>x\<rfloor> - 1 else expo_below x (bitlen \<lfloor>1 / x\<rfloor> - 1))"

text \<open>The nearest integer, a tie going to the even one.\<close>

definition tie_even :: "real \<Rightarrow> int \<Rightarrow> int" where
  "tie_even q f =
     (if q - of_int f < 1 / 2 then f
      else if 1 / 2 < q - of_int f then f + 1
      else if even f then f else f + 1)"

definition round_even :: "real \<Rightarrow> int" where
  "round_even q = tie_even q \<lfloor>q\<rfloor>"

text \<open>
  The spacing of the binary64 values around \<open>x > 0\<close>: 53 significant bits, and the
  spacing of the subnormal values below \<open>2^-1022\<close>.
\<close>

definition ulp_of :: "real \<Rightarrow> real" where
  "ulp_of x = pow2 (max (expo x) (- 1022) - 52)"

definition on_grid :: "real \<Rightarrow> real \<Rightarrow> real" where
  "on_grid x u = of_int (round_even (x / u)) * u"

definition nearest :: "real \<Rightarrow> real" where
  "nearest x = on_grid x (ulp_of x)"

definition overflow :: "real \<Rightarrow> number" where
  "overflow y = (if 2 ^ 1024 \<le> y then PosInf else Finite y)"

definition fl_pos :: "real \<Rightarrow> number" where
  "fl_pos x = overflow (nearest x)"

fun js_neg :: "number \<Rightarrow> number" where
  "js_neg (Finite r) = (if r = 0 then NegZero else Finite (- r))"
| "js_neg NegZero = Finite 0"
| "js_neg PosInf = NegInf"
| "js_neg NegInf = PosInf"
| "js_neg NaN = NaN"

text \<open>
  \<open>fl x\<close> is the binary64 value of the real \<open>x\<close>: the value of a decimal literal, and the
  rounding of every exact result.
\<close>

definition fl :: "real \<Rightarrow> number" where
  "fl x = (if x = 0 then Finite 0 else if x < 0 then js_neg (fl_pos (- x)) else fl_pos x)"

fun val :: "number \<Rightarrow> real" where
  "val (Finite r) = r"
| "val NegZero = 0"
| "val PosInf = 0"
| "val NegInf = 0"
| "val NaN = 0"

fun is_finite :: "number \<Rightarrow> bool" where
  "is_finite (Finite r) = True"
| "is_finite NegZero = True"
| "is_finite PosInf = False"
| "is_finite NegInf = False"
| "is_finite NaN = False"

fun sign_bit :: "number \<Rightarrow> bool" where
  "sign_bit (Finite r) = (r < 0)"
| "sign_bit NegZero = True"
| "sign_bit PosInf = False"
| "sign_bit NegInf = True"
| "sign_bit NaN = False"

definition signed_zero :: "bool \<Rightarrow> number" where
  "signed_zero s = (if s then NegZero else Finite 0)"

definition signed_inf :: "bool \<Rightarrow> number" where
  "signed_inf s = (if s then NegInf else PosInf)"

text \<open>\<open>a + b\<close>, \<open>a - b\<close>, \<open>a * b\<close> and \<open>a / b\<close>.\<close>

definition js_add :: "number \<Rightarrow> number \<Rightarrow> number" where
  "js_add a b =
     (if a = NaN \<or> b = NaN then NaN
      else if \<not> is_finite a then (if \<not> is_finite b \<and> a \<noteq> b then NaN else a)
      else if \<not> is_finite b then b
      else if val a + val b = 0 then signed_zero (sign_bit a \<and> sign_bit b)
      else fl (val a + val b))"

definition js_sub :: "number \<Rightarrow> number \<Rightarrow> number" where
  "js_sub a b = js_add a (js_neg b)"

definition js_mul :: "number \<Rightarrow> number \<Rightarrow> number" where
  "js_mul a b =
     (if a = NaN \<or> b = NaN then NaN
      else if \<not> is_finite a \<or> \<not> is_finite b
      then (if (is_finite a \<and> val a = 0) \<or> (is_finite b \<and> val b = 0) then NaN
            else signed_inf (sign_bit a \<noteq> sign_bit b))
      else if val a * val b = 0 then signed_zero (sign_bit a \<noteq> sign_bit b)
      else fl (val a * val b))"

definition js_div :: "number \<Rightarrow> number \<Rightarrow> number" where
  "js_div a b =
     (if a = NaN \<or> b = NaN then NaN
      else if \<not> is_finite a
      then (if \<not> is_finite b then NaN else signed_inf (sign_bit a \<noteq> sign_bit b))
      else if \<not> is_finite b then signed_zero (sign_bit a \<noteq> sign_bit b)
      else if val b = 0
      then (if val a = 0 then NaN else signed_inf (sign_bit a \<noteq> sign_bit b))
      else if val a = 0 then signed_zero (sign_bit a \<noteq> sign_bit b)
      else fl (val a / val b))"

text \<open>
  \<open>a < b\<close>, \<open>a > b\<close> and \<open>a <= b\<close>: false when either side is NaN; the two zeros are
  equal.
\<close>

definition js_lt :: "number \<Rightarrow> number \<Rightarrow> bool" where
  "js_lt a b =
     (if a = NaN \<or> b = NaN then False
      else if a = NegInf then b \<noteq> NegInf
      else if b = PosInf then a \<noteq> PosInf
      else if a = PosInf \<or> b = NegInf then False
      else val a < val b)"

definition js_gt :: "number \<Rightarrow> number \<Rightarrow> bool" where
  "js_gt a b = js_lt b a"

definition js_le :: "number \<Rightarrow> number \<Rightarrow> bool" where
  "js_le a b = (a \<noteq> NaN \<and> b \<noteq> NaN \<and> \<not> js_lt b a)"

text \<open>\<open>x === 0\<close>, and the truthiness of a number: the zeros and NaN are falsy.\<close>

definition is_zero :: "number \<Rightarrow> bool" where
  "is_zero x = (is_finite x \<and> val x = 0)"

definition js_truthy :: "number \<Rightarrow> bool" where
  "js_truthy x = (x \<noteq> NaN \<and> \<not> is_zero x)"

fun math_abs :: "number \<Rightarrow> number" where
  "math_abs (Finite r) = Finite \<bar>r\<bar>"
| "math_abs NegZero = Finite 0"
| "math_abs PosInf = PosInf"
| "math_abs NegInf = PosInf"
| "math_abs NaN = NaN"

text \<open>
  \<open>Math.round\<close>: the nearest integer, a tie going to the greater one
  (\<open>Math.round(2.5) = 3\<close>, \<open>Math.round(-2.5) = -2\<close>); a result of zero keeps the sign of
  the argument.
\<close>

definition integer_result :: "real \<Rightarrow> int \<Rightarrow> number" where
  "integer_result r n = (if n = 0 then signed_zero (r < 0) else Finite (of_int n))"

fun math_round :: "number \<Rightarrow> number" where
  "math_round (Finite r) = integer_result r \<lfloor>r + 1 / 2\<rfloor>"
| "math_round NegZero = NegZero"
| "math_round PosInf = PosInf"
| "math_round NegInf = NegInf"
| "math_round NaN = NaN"

text \<open>
  \<open>Math.max\<close> and \<open>Math.min\<close> of the arguments in a list: NaN if any argument is NaN,
  the positive zero greater than the negative one, and \<open>-Infinity\<close> and \<open>Infinity\<close> for
  no argument.
\<close>

definition max2 :: "number \<Rightarrow> number \<Rightarrow> number" where
  "max2 a b =
     (if a = NaN \<or> b = NaN then NaN
      else if js_lt a b then b
      else if js_lt b a then a
      else if sign_bit a then b else a)"

definition min2 :: "number \<Rightarrow> number \<Rightarrow> number" where
  "min2 a b =
     (if a = NaN \<or> b = NaN then NaN
      else if js_lt a b then a
      else if js_lt b a then b
      else if sign_bit a then a else b)"

definition math_max :: "number list \<Rightarrow> number" where
  "math_max xs = foldl max2 NegInf xs"

definition math_min :: "number list \<Rightarrow> number" where
  "math_min xs = foldl min2 PosInf xs"

text \<open>
  \<open>function round(value, digits = 2)\<close>; every call of the program passes 2 or
  leaves the default, and \<open>10 ** 2\<close> is exactly 100.
\<close>

definition round_digits :: "number \<Rightarrow> nat \<Rightarrow> number" where
  "round_digits v digits =
     (let factor = Finite (10 ^ digits) in js_div (math_round (js_mul v factor)) factor)"

section \<open>Arrays\<close>

text \<open>
  \<open>Array.prototype.slice(start, end)\<close>: a negative index counts from the end, and both
  are clamped to the array.
\<close>

definition slice :: "'a list \<Rightarrow> int \<Rightarrow> int \<Rightarrow> 'a list" where
  "slice xs start fin =
     (let len = int (length xs);
          k = (if start < 0 then max (len + start) 0 else min start len);
          final = (if fin < 0 then max (len + fin) 0 else min fin len)
      in take (nat (final - k)) (drop (nat k) xs))"

definition slice_from :: "'a list \<Rightarrow> int \<Rightarrow> 'a list" where
  "slice_from xs start = slice xs start (int (length xs))"

text \<open>\<open>xs[i]\<close>, which is \<open>undefined\<close> outside the array.\<close>

definition at_index :: "'a list \<Rightarrow> int \<Rightarrow> 'a option" where
  "at_index xs i = (if 0 \<le> i \<and> i < int (length xs) then Some (xs ! nat i) else None)"

text \<open>\<open>values.reduce((acc, value) => acc + value, 0)\<close>\<close>

definition reduce_add :: "number list \<Rightarrow> number" where
  "reduce_add values = foldl (\<lambda>acc v. js_add acc v) (Finite 0) values"

section \<open>Data model\<close>

text \<open>
  The interfaces \<open>Candle\<close>, \<open>IndicatorPoint\<close> and \<open>NiftyAnalysis\<close>. An optional field
  and a field of type \<open>number | null\<close> are options. The field \<open>open\<close> is \<open>open_price\<close>
  here and the function \<open>round\<close> is \<open>round_digits\<close>, the two names being taken in HOL.
\<close>

record Candle =
  date :: string
  open_price :: number
  high :: number
  low :: number
  close :: number
  volume :: "number option"

record IndicatorPoint = Candle +
  sma10 :: "number option"
  sma20 :: "number option"
  sma50 :: "number option"
  rsi14 :: "number option"

datatype Bias = Bullish | Bearish | Neutral

datatype Confidence = High | Medium | Low

text \<open>
  A template literal is kept as its parts, the literal text and the interpolated numbers,
  in order: the conversion of a number to its decimal text is not modelled.
\<close>

datatype template_part = Lit string | Num number

record NiftyAnalysis =
  lastClose :: number
  previousClose :: "number option"
  dailyChangePct :: "number option"
  bias :: Bias
  momentumPct5Day :: "number option"
  rsi14 :: "number option"
  supportZone :: "number option"
  resistanceZone :: "number option"
  nextMoveHeadline :: string
  narrative :: "template_part list"
  confidence :: Confidence

datatype error = Error string

section \<open>The indicator engine\<close>

definition windowSlice :: "number list \<Rightarrow> nat \<Rightarrow> nat \<Rightarrow> number list" where
  "windowSlice closes index period =
     slice closes (max 0 (int index - int period + 1)) (int index + 1)"

definition computeSMA :: "number list \<Rightarrow> nat \<Rightarrow> nat \<Rightarrow> number option" where
  "computeSMA closes index period =
     (if index + 1 < period then None
      else let values = windowSlice closes index period;
               sum = reduce_add values
           in Some (round_digits (js_div sum (Finite (real period))) 2))"

text \<open>
  The two pushes of the callback onto \<open>gains\<close> and \<open>losses\<close>. The callback runs at
  \<open>index < closes.length\<close> only, so both reads of \<open>closes\<close> are inside the array.
\<close>

definition pushGainLoss ::
  "number list \<Rightarrow> nat \<Rightarrow> number list \<times> number list \<Rightarrow> number list \<times> number list" where
  "pushGainLoss closes index gl =
     (case gl of (gains, losses) \<Rightarrow>
        if index = 0 then (gains @ [Finite 0], losses @ [Finite 0])
        else let change = js_sub (closes ! index) (closes ! (index - 1))
             in (gains @ [math_max [change, Finite 0]],
                 losses @ [math_max [js_neg change, Finite 0]]))"

definition computeRSI :: "number list \<Rightarrow> number list \<Rightarrow> nat \<Rightarrow> nat \<Rightarrow> number option" where
  "computeRSI gains losses index period =
     (if index < period then None
      else let recentGains = slice gains (int index - int period + 1) (int index + 1);
               recentLosses = slice losses (int index - int period + 1) (int index + 1);
               averageGain = js_div (reduce_add recentGains) (Finite (real period));
               averageLoss = js_div (reduce_add recentLosses) (Finite (real period))
           in if is_zero averageLoss then Some (Finite 100)
              else if is_zero averageGain then Some (Finite 0)
              else let rs = js_div averageGain averageLoss
                   in Some (round_digits
                              (js_sub (Finite 100) (js_div (Finite 100) (js_add (Finite 1) rs)))
                              2))"

text \<open>The callback of \<open>candles.map\<close>: the point of one candle and the arrays it leaves.\<close>

definition indicatorPoint ::
  "number list \<Rightarrow> number list \<times> number list \<Rightarrow> Candle \<Rightarrow> nat
     \<Rightarrow> IndicatorPoint \<times> (number list \<times> number list)" where
  "indicatorPoint closes gl candle index =
     (let gl' = pushGainLoss closes index gl
      in (\<lparr> date = date candle, open_price = open_price candle, high = high candle,
            low = low candle, close = close candle, volume = volume candle,
            sma10 = computeSMA closes index 10,
            sma20 = computeSMA closes index 20,
            sma50 = computeSMA closes index 50,
            rsi14 = computeRSI (fst gl') (snd gl') index 14 \<rparr>, gl'))"

text \<open>\<open>candles.map\<close> from \<open>index\<close> on, threading \<open>gains\<close> and \<open>losses\<close>.\<close>

fun mapCandles ::
  "number list \<Rightarrow> number list \<times> number list \<Rightarrow> nat \<Rightarrow> Candle list
     \<Rightarrow> IndicatorPoint list \<times> (number list \<times> number list)" where
  "mapCandles closes gl index [] = ([], gl)"
| "mapCandles closes gl index (candle # rest) =
     (let (p, gl') = indicatorPoint closes gl candle index;
          (ps, gl'') = mapCandles closes gl' (Suc index) rest
      in (p # ps, gl''))"

text \<open>The points together with the final \<open>gains\<close> and \<open>losses\<close> arrays.\<close>

definition addIndicators_arrays ::
  "Candle list \<Rightarrow> IndicatorPoint list \<times> (number list \<times> number list)" where
  "addIndicators_arrays candles =
     (let closes = map close candles in mapCandles closes ([], []) 0 candles)"

definition addIndicators :: "Candle list \<Rightarrow> IndicatorPoint list" where
  "addIndicators candles = fst (addIndicators_arrays candles)"


section \<open>The analysis summarizer\<close>

text \<open>
  Truthiness of \<open>number | undefined\<close> (and of \<open>number | null\<close>): absent, zero and NaN are
  falsy.
\<close>

fun truthy :: "number option \<Rightarrow> bool" where
  "truthy None = False"
| "truthy (Some v) = js_truthy v"

text \<open>\<open>${v ?? "text"}\<close> inside a template literal.\<close>

fun interp :: "number option \<Rightarrow> string \<Rightarrow> template_part" where
  "interp (Some v) fallback = Num v"
| "interp None fallback = Lit fallback"

text \<open>
  \<open>analyzeNifty\<close>. The \<open>throw\<close> is the \<open>Inl\<close> result. After it \<open>candles\<close> is not
  empty, so \<open>lastPoint\<close> is read inside \<open>enriched\<close>. The decimal literals \<open>0.005\<close>,
  \<open>0.003\<close> and \<open>0.02\<close> are their binary64 values.
\<close>

definition analyzeNifty :: "Candle list \<Rightarrow> error + NiftyAnalysis" where
  "analyzeNifty candles =
    (if length candles = 0 then Inl (Error ''No candles provided for analysis'')
     else
      let enriched = addIndicators candles;
          lastPoint = enriched ! (length enriched - 1);
          previousPoint =
            (if length enriched > 1 then Some (enriched ! (length enriched - 2)) else None);
          lastClose = round_digits (close lastPoint) 2;
          previousClose =
            (case previousPoint of Some pp \<Rightarrow> Some (round_digits (close pp) 2) | None \<Rightarrow> None);
          dailyChangePct =
            (case previousPoint of
               Some pp \<Rightarrow>
                 if js_truthy (close pp)
                 then Some (round_digits
                              (js_mul (js_div (js_sub (close lastPoint) (close pp)) (close pp))
                                 (Finite 100)) 2)
                 else None
             | None \<Rightarrow> None);
          rsi14 = IndicatorPoint.rsi14 lastPoint;
          sma20 = IndicatorPoint.sma20 lastPoint;
          sma50 = IndicatorPoint.sma50 lastPoint;
          fiveDayReference =
            (case at_index candles (int (length candles) - 6) of
               Some c \<Rightarrow> Some c
             | None \<Rightarrow> at_index candles 0);
          momentumPct5Day =
            (case fiveDayReference of
               Some ref \<Rightarrow>
                 Some (round_digits
                         (js_mul (js_div (js_sub (close lastPoint) (close ref)) (close ref))
                            (Finite 100)) 2)
             | None \<Rightarrow> None);
          recentWindow = slice_from candles (- 15);
          supportZone =
            (if length recentWindow > 0
             then Some (round_digits (math_min (map low recentWindow)) 2)
             else None);
          resistanceZone =
            (if length recentWindow > 0
             then Some (round_digits (math_max (map high recentWindow)) 2)
             else None);
          bias =
            (if truthy sma20 \<and> truthy sma50
             then (if js_gt lastClose (the sma20) \<and> js_gt (the sma20) (the sma50) then Bullish
                   else if js_lt lastClose (the sma20) \<and> js_lt (the sma20) (the sma50)
                   then Bearish
                   else Neutral)
             else Neutral);
          confidence =
            (if rsi14 \<noteq> None \<and> sma20 \<noteq> None \<and> sma50 \<noteq> None
             then
               let distanceFromSma =
                     math_abs (js_div (js_sub lastClose (the sma20)) (the sma20))
               in if js_lt distanceFromSma (fl 0.005)
                     \<and> js_lt (math_abs (js_div (js_sub (the sma20) (the sma50)) (the sma50)))
                          (fl 0.003)
                  then Low
                  else if js_gt distanceFromSma (fl 0.02)
                          \<or> (js_gt (the rsi14) (Finite 68) \<or> js_lt (the rsi14) (Finite 32))
                  then High
                  else Medium
             else Medium);
          momentumOr0 = (case momentumPct5Day of Some m \<Rightarrow> Num m | None \<Rightarrow> Num (Finite 0));
          (nextMoveHeadline, narrative) =
            (if bias = Bullish then
               (if rsi14 \<noteq> None \<and> js_gt (the rsi14) (Finite 68) then
                  (''Uptrend extended but stretched'',
                   [Lit ''Momentum stays positive with price riding above the 20-day average, though RSI at '',
                    Num (the rsi14),
                    Lit '' signals potential cooling. Pullbacks toward '',
                    interp sma20 ''the 20-day SMA'',
                    Lit '' could offer dip opportunities while '',
                    interp supportZone ''recent support'',
                    Lit '' holds.''])
                else
                  (''Upside continuation favoured'',
                   [Lit ''Price holds above the rising 20- and 50-day averages with '',
                    momentumOr0,
                    Lit ''% five-day momentum. A sustained move above '',
                    interp resistanceZone ''recent highs'',
                    Lit '' would extend the rally, while '',
                    interp supportZone ''nearby support'',
                    Lit '' remains the risk marker.'']))
             else if bias = Bearish then
               (if rsi14 \<noteq> None \<and> js_lt (the rsi14) (Finite 32) then
                  (''Downtrend oversold'',
                   [Lit ''Nifty is trading beneath its short- and medium-term averages with RSI at '',
                    Num (the rsi14),
                    Lit '', flagging a stretched sell-off. A pause or mean reversion bounce is possible unless '',
                    interp supportZone ''support'',
                    Lit '' breaks decisively.''])
                else
                  (''Downside pressure building'',
                   [Lit ''Lower highs persist beneath the 20- and 50-day averages. Momentum over the last week sits at '',
                    momentumOr0,
                    Lit ''%. Losing '',
                    interp supportZone ''recent support'',
                    Lit '' would unlock deeper retracements, while reclaiming '',
                    interp sma20 ''the 20-day SMA'',
                    Lit '' is needed to neutralise the trend.'']))
             else
               (''Sideways consolidation likely'',
                [Lit ''Nifty appears range-bound as key moving averages converge. Traders may focus on breakouts from recent levels.'']))
      in Inr \<lparr> lastClose = lastClose,
               previousClose = previousClose,
               dailyChangePct = dailyChangePct,
               bias = bias,
               momentumPct5Day = momentumPct5Day,
               rsi14 = rsi14,
               supportZone = supportZone,
               resistanceZone = resistanceZone,
               nextMoveHeadline = nextMoveHeadline,
               narrative = narrative,
               confidence = confidence \<rparr>)"


section \<open>The gain and loss series, as the specification states them\<close>

text \<open>
  \<open>gain closes i\<close> and \<open>loss closes i\<close> are the values the specification gives for index
  \<open>i\<close> of the two series: zero at index 0, otherwise the greater of zero and the change
  of the close, and of zero and the negated change.
\<close>

definition gain :: "number list \<Rightarrow> nat \<Rightarrow> number" where
  "gain closes i =
     (if i = 0 then Finite 0
      else math_max [js_sub (closes ! i) (closes ! (i - 1)), Finite 0])"

definition loss :: "number list \<Rightarrow> nat \<Rightarrow> number" where
  "loss closes i =
     (if i = 0 then Finite 0
      else math_max [js_neg (js_sub (closes ! i) (closes ! (i - 1))), Finite 0])"

text \<open>
  The three-branch rule of the relative strength index on the two averages, every
  operation in binary64.
\<close>

definition rsi_rule :: "number \<Rightarrow> number \<Rightarrow> number" where
  "rsi_rule averageGain averageLoss =
     (if is_zero averageLoss then Finite 100
      else if is_zero averageGain then Finite 0
      else js_div
             (math_round
                (js_mul
                   (js_sub (Finite 100)
                      (js_div (Finite 100) (js_add (Finite 1) (js_div averageGain averageLoss))))
                   (Finite 100)))
             (Finite 100))"

section \<open>The claims in exact arithmetic\<close>

text \<open>
  The value times 100, rounded to the nearest integer with a tie going away from zero,
  divided by 100, on the reals.
\<close>

definition round_half_away_from_zero :: "real \<Rightarrow> real" where
  "round_half_away_from_zero v = sgn v * of_int \<lfloor>\<bar>v * 100\<bar> + 1 / 2\<rfloor> / 100"

text \<open>
  The arithmetic mean of the closes at the indices \<open>i - n + 1\<close> to \<open>i\<close>, rounded to two
  decimals.
\<close>

definition exact_sma :: "number list \<Rightarrow> nat \<Rightarrow> nat \<Rightarrow> real" where
  "exact_sma closes i n =
     round_half_away_from_zero ((\<Sum>j = i + 1 - n..i. val (closes ! j)) / real n)"





text \<open>
  The confidence rule with the two relative distances written as the specification
  writes them, the absolute value of the difference divided by the average.
\<close>

definition spec_confidence ::
  "number \<Rightarrow> number option \<Rightarrow> number option \<Rightarrow> number option \<Rightarrow> Confidence" where
  "spec_confidence last_close rsi sma_20 sma_50 =
     (case (rsi, sma_20, sma_50) of
        (Some v, Some a, Some b) \<Rightarrow>
          (if js_lt (js_div (math_abs (js_sub last_close a)) a) (fl 0.005)
              \<and> js_lt (js_div (math_abs (js_sub a b)) b) (fl 0.003)
           then Low
           else if js_gt (js_div (math_abs (js_sub last_close a)) a) (fl 0.02)
                   \<or> js_gt v (Finite 68) \<or> js_lt v (Finite 32)
           then High
           else Medium)
      | _ \<Rightarrow> Medium)"

section \<open>Example inputs\<close>

text \<open>A candle whose four prices are all \<open>c\<close>.\<close>

definition candle_at :: "number \<Rightarrow> Candle" where
  "candle_at c = \<lparr> date = ''d'', open_price = c, high = c, low = c, close = c, volume = None \<rparr>"

definition candles_at :: "real list \<Rightarrow> Candle list" where
  "candles_at xs = map (\<lambda>x. candle_at (Finite x)) xs"

text \<open>Ten candles closing at 1 to 10.\<close>

definition ten :: "Candle list" where
  "ten = candles_at [1, 2, 3, 4, 5, 6, 7, 8, 9, 10]"

text \<open>Nine candles closing at 1, then one at 1.25: the mean of the ten is 1.025.\<close>

definition step_up :: "Candle list" where
  "step_up = candles_at [1, 1, 1, 1, 1, 1, 1, 1, 1, 5 / 4]"


text \<open>Sixty candles closing at 2, 4, and so on to 120: a steady rise.\<close>

definition sixty :: "Candle list" where
  "sixty = candles_at [2, 4, 6, 8, 10, 12, 14, 16, 18, 20, 22, 24, 26, 28, 30, 32, 34, 36, 38, 40,
     42, 44, 46, 48, 50, 52, 54, 56, 58, 60, 62, 64, 66, 68, 70, 72, 74, 76, 78, 80,
     82, 84, 86, 88, 90, 92, 94, 96, 98, 100, 102, 104, 106, 108, 110, 112, 114, 116, 118, 120]"



text \<open>One candle at the binary64 value of the literal \<open>1.115\<close>.\<close>

definition single :: "Candle list" where
  "single = [candle_at (fl 1.115)]"

text \<open>
  Two candles: the lows are the binary64 value of \<open>1.115\<close> and 2, the highs 3 and
  \<open>4.125\<close>.
\<close>

definition two_bars :: "Candle list" where
  "two_bars =
     [\<lparr> date = ''d1'', open_price = Finite 2, high = Finite 3, low = fl (1115 / 1000),
        close = Finite 2, volume = None \<rparr>,
      \<lparr> date = ''d2'', open_price = Finite 2, high = Finite (33 / 8), low = Finite 2,
        close = Finite 3, volume = None \<rparr>]"
section \<open>Rounding to the nearest binary64 value\<close>

lemma pow2_powi: "pow2 e = 2 powi e"
  by (simp add: pow2_def power_int_def inverse_eq_divide power_one_over)

lemma pow2_pos: "0 < pow2 e"
  by (simp add: pow2_powi)

lemma pow2_add: "pow2 (a + b) = pow2 a * pow2 b"
  by (simp add: pow2_powi power_int_add)

lemma pow2_diff: "pow2 (a - b) = pow2 a / pow2 b"
  by (simp add: pow2_powi power_int_diff)

lemma pow2_mono: "a \<le> b \<Longrightarrow> pow2 a \<le> pow2 b"
  by (simp add: pow2_powi power_int_increasing)


lemma pow2_nat: "pow2 (int n) = 2 ^ n"
  by (simp add: pow2_def)

lemma pow2_Suc: "pow2 (e + 1) = 2 * pow2 e"
  using pow2_add [of e 1] by (simp add: pow2_def)

lemma expo_bounds:
  assumes "0 < x"
  shows "pow2 (expo x) \<le> x" and "x < pow2 (expo x + 1)"
proof -
  have "pow2 (expo x) \<le> x \<and> x < pow2 (expo x + 1)"
  proof (cases "1 \<le> x")
    case True
    define n where "n = \<lfloor>x\<rfloor>"
    have n: "0 < n" using True by (simp add: n_def)
    have b: "1 \<le> bitlen n" using n bitlen_eq_zero_iff [of n] bitlen_nonneg [of n] by linarith
    have e: "expo x = bitlen n - 1" using True by (simp add: expo_def n_def)
    have lo: "(2 :: int) ^ nat (bitlen n - 1) \<le> n" and hi: "n < 2 ^ nat (bitlen n)"
      using bitlen_bounds [OF n] by simp_all
    have "pow2 (bitlen n - 1) = of_int (2 ^ nat (bitlen n - 1))"
      using b by (simp add: pow2_def)
    also have "\<dots> \<le> of_int n" using lo by (simp only: of_int_le_iff)
    also have "\<dots> \<le> x" by (simp add: n_def)
    finally have 1: "pow2 (expo x) \<le> x" unfolding e .
    have "n + 1 \<le> 2 ^ nat (bitlen n)" using hi by simp
    then have "(of_int (n + 1) :: real) \<le> of_int (2 ^ nat (bitlen n))"
      by (simp only: of_int_le_iff)
    moreover have "x < of_int (n + 1)" by (simp add: n_def)
    moreover have "pow2 (bitlen n) = of_int (2 ^ nat (bitlen n))"
      using b by (simp add: pow2_def)
    ultimately have 2: "x < pow2 (expo x + 1)" unfolding e by simp
    show ?thesis using 1 2 ..
  next
    case False
    then have x1: "x < 1" by simp
    define m where "m = \<lfloor>1 / x\<rfloor>"
    define k where "k = bitlen m - 1"
    have "1 < 1 / x" using assms x1 by simp
    then have m: "0 < m" by (simp add: m_def)
    have b: "1 \<le> bitlen m" using m bitlen_eq_zero_iff [of m] bitlen_nonneg [of m] by linarith
    then have k: "0 \<le> k" by (simp add: k_def)
    have lo: "(2 :: int) ^ nat k \<le> m" and hi: "m < 2 ^ nat (k + 1)"
      using bitlen_bounds [OF m] by (simp_all add: k_def)
    have "(2 :: real) ^ nat k = of_int (2 ^ nat k)" by simp
    also have "\<dots> \<le> of_int m" using lo by (simp only: of_int_le_iff)
    also have "\<dots> \<le> 1 / x" by (simp add: m_def)
    finally have "2 ^ nat k \<le> 1 / x" .
    then have le: "x * 2 ^ nat k \<le> 1" using assms by (simp add: field_simps)
    have "m + 1 \<le> 2 ^ nat (k + 1)" using hi by simp
    then have "(of_int (m + 1) :: real) \<le> of_int (2 ^ nat (k + 1))"
      by (simp only: of_int_le_iff)
    moreover have "1 / x < of_int (m + 1)" by (simp add: m_def)
    ultimately have "1 / x < 2 ^ nat (k + 1)" by simp
    moreover have "nat (k + 1) = Suc (nat k)" using k by simp
    ultimately have "1 / x < 2 * 2 ^ nat k" by simp
    then have gt: "1 < x * (2 * 2 ^ nat k)" using assms by (simp add: field_simps)
    have e: "expo x = (if x * 2 ^ nat k = 1 then - k else - k - 1)"
      using False by (simp add: expo_def expo_below_def m_def k_def)
    have p: "pow2 (- k) = 1 / 2 ^ nat k"
      using k by (cases "k = 0") (simp_all add: pow2_def)
    have q: "pow2 (- k - 1) = 1 / (2 * 2 ^ nat k)"
      using k pow2_Suc [of "- k - 1"] p by simp
    show ?thesis
    proof (cases "x * 2 ^ nat k = 1")
      case True
      then have x: "x = 1 / 2 ^ nat k" by (simp add: field_simps)
      have "expo x = - k" using e True by simp
      then have a: "pow2 (expo x) = x" using p x by simp
      have b: "pow2 (expo x + 1) = 2 * x" using pow2_Suc [of "expo x"] a by simp
      show ?thesis unfolding a b using assms by simp
    next
      case False
      then have lt: "x * 2 ^ nat k < 1" using le by simp
      have ex: "expo x = - k - 1" using e False by simp
      have "1 / (2 * 2 ^ nat k) < x" using gt by (simp add: field_simps)
      moreover have "x < 1 / 2 ^ nat k" using lt by (simp add: field_simps)
      ultimately show ?thesis unfolding ex using p q by simp
    qed
  qed
  then show "pow2 (expo x) \<le> x" and "x < pow2 (expo x + 1)" by simp_all
qed


lemma expo_mono:
  assumes "0 < x" "x \<le> y"
  shows "expo x \<le> expo y"
proof (rule ccontr)
  assume "\<not> expo x \<le> expo y"
  then have "expo y + 1 \<le> expo x" by simp
  then have "pow2 (expo y + 1) \<le> pow2 (expo x)" by (rule pow2_mono)
  moreover have "0 < y" using assms by simp
  ultimately show False
    using expo_bounds(1) [OF assms(1)] expo_bounds(2) [of y] assms(2) by simp
qed

lemma round_even_of_int: "round_even (of_int n) = n"
  by (simp add: round_even_def tie_even_def)

lemma round_even_bounds: "\<lfloor>q\<rfloor> \<le> round_even q" "round_even q \<le> \<lfloor>q\<rfloor> + 1"
  by (simp_all add: round_even_def tie_even_def)

lemma round_even_mono:
  assumes "q \<le> q'"
  shows "round_even q \<le> round_even q'"
proof (cases "\<lfloor>q\<rfloor> = \<lfloor>q'\<rfloor>")
  case True
  then show ?thesis
    using assms by (auto simp: round_even_def tie_even_def)
next
  case False
  then have "\<lfloor>q\<rfloor> + 1 \<le> \<lfloor>q'\<rfloor>" using floor_mono [OF assms] by simp
  then show ?thesis
    using round_even_bounds(2) [of q] round_even_bounds(1) [of q'] by simp
qed

lemma round_even_le:
  assumes "q \<le> of_int n"
  shows "round_even q \<le> n"
  using round_even_mono [OF assms] by (simp add: round_even_of_int)

lemma round_even_ge:
  assumes "of_int n \<le> q"
  shows "n \<le> round_even q"
  using round_even_mono [OF assms] by (simp add: round_even_of_int)

lemma ulp_of_pos: "0 < ulp_of x"
  by (simp add: ulp_of_def pow2_pos)

lemma nearest_nonneg:
  assumes "0 \<le> x"
  shows "0 \<le> nearest x"
proof -
  have "0 \<le> x / ulp_of x" using assms ulp_of_pos [of x] by simp
  then have "(of_int 0 :: real) \<le> x / ulp_of x" by simp
  then have "0 \<le> round_even (x / ulp_of x)" by (rule round_even_ge)
  then show ?thesis
    using ulp_of_pos [of x] by (simp add: nearest_def on_grid_def)
qed

lemma nearest_upper:
  assumes "0 < x"
  shows "nearest x \<le> pow2 (max (expo x) (- 1022) + 1)"
proof -
  define e where "e = max (expo x) (- 1022)"
  have u: "ulp_of x = pow2 (e - 52)" by (simp add: ulp_of_def e_def)
  have "x < pow2 (expo x + 1)" by (rule expo_bounds(2) [OF assms])
  also have "\<dots> \<le> pow2 (e + 1)" by (rule pow2_mono) (simp add: e_def)
  finally have "x < pow2 (e + 1)" .
  moreover have "e + 1 = 53 + (e - 52)" by arith
  then have s: "pow2 (e + 1) = pow2 53 * pow2 (e - 52)" by (metis pow2_add)
  ultimately have "x / pow2 (e - 52) < pow2 53"
    using pow2_pos [of "e - 52"] by (simp add: field_simps)
  moreover have "pow2 53 = of_int (2 ^ 53)" using pow2_nat [of 53] by simp
  ultimately have "x / pow2 (e - 52) \<le> of_int (2 ^ 53)" by simp
  then have "round_even (x / pow2 (e - 52)) \<le> 2 ^ 53" by (rule round_even_le)
  then have "(of_int (round_even (x / pow2 (e - 52))) :: real) \<le> of_int (2 ^ 53)"
    by (simp only: of_int_le_iff)
  then have "of_int (round_even (x / pow2 (e - 52))) * pow2 (e - 52)
      \<le> of_int (2 ^ 53) * pow2 (e - 52)"
    using pow2_pos [of "e - 52"] by (simp only: mult_le_cancel_right_pos)
  also have "\<dots> = pow2 (e + 1)"
    using s pow2_nat [of 53] by simp
  finally show ?thesis by (simp add: nearest_def on_grid_def u e_def)
qed

lemma nearest_lower:
  assumes "0 < x" "- 1022 \<le> expo x"
  shows "pow2 (expo x) \<le> nearest x"
proof -
  define e where "e = expo x"
  have u: "ulp_of x = pow2 (e - 52)" using assms(2) by (simp add: ulp_of_def e_def max_def)
  have "pow2 e \<le> x" unfolding e_def by (rule expo_bounds(1) [OF assms(1)])
  moreover have "pow2 e = pow2 52 * pow2 (e - 52)"
    using pow2_add [of 52 "e - 52"] by simp
  ultimately have "pow2 52 \<le> x / pow2 (e - 52)"
    using pow2_pos [of "e - 52"] by (simp add: field_simps)
  moreover have "pow2 52 = of_int (2 ^ 52)" using pow2_nat [of 52] by simp
  ultimately have "of_int (2 ^ 52) \<le> x / pow2 (e - 52)" by simp
  then have "2 ^ 52 \<le> round_even (x / pow2 (e - 52))" by (rule round_even_ge)
  then have "(of_int (2 ^ 52) :: real) \<le> of_int (round_even (x / pow2 (e - 52)))"
    by (simp only: of_int_le_iff)
  then have "of_int (2 ^ 52) * pow2 (e - 52)
      \<le> of_int (round_even (x / pow2 (e - 52))) * pow2 (e - 52)"
    using pow2_pos [of "e - 52"] by (simp only: mult_le_cancel_right_pos)
  moreover have "of_int (2 ^ 52) * pow2 (e - 52) = pow2 e"
    using pow2_add [of 52 "e - 52"] pow2_nat [of 52] by simp
  ultimately show ?thesis by (simp add: nearest_def on_grid_def u e_def)
qed

lemma nearest_mono:
  assumes "0 < x" "x \<le> y"
  shows "nearest x \<le> nearest y"
proof -
  have y: "0 < y" using assms by simp
  define ex where "ex = max (expo x) (- 1022)"
  define ey where "ey = max (expo y) (- 1022)"
  have le: "ex \<le> ey" using expo_mono [OF assms] by (simp add: ex_def ey_def)
  show ?thesis
  proof (cases "ex = ey")
    case True
    then have u: "ulp_of y = ulp_of x" by (simp add: ulp_of_def ex_def ey_def)
    have "x / ulp_of x \<le> y / ulp_of x"
      using assms(2) ulp_of_pos [of x] by (simp add: divide_right_mono)
    then have "round_even (x / ulp_of x) \<le> round_even (y / ulp_of x)"
      by (rule round_even_mono)
    then have "(of_int (round_even (x / ulp_of x)) :: real)
        \<le> of_int (round_even (y / ulp_of x))"
      by (simp only: of_int_le_iff)
    then show ?thesis
      using ulp_of_pos [of x] by (simp add: nearest_def on_grid_def u)
  next
    case False
    then have lt: "ex + 1 \<le> ey" using le by simp
    then have ey: "ey = expo y" "- 1022 \<le> expo y" by (simp_all add: ex_def ey_def)
    have "nearest x \<le> pow2 (ex + 1)" unfolding ex_def by (rule nearest_upper [OF assms(1)])
    also have "\<dots> \<le> pow2 ey" using lt by (rule pow2_mono)
    also have "\<dots> \<le> nearest y" unfolding ey(1) by (rule nearest_lower [OF y ey(2)])
    finally show ?thesis .
  qed
qed

section \<open>Sign and order of the rounded results\<close>

lemma pow2_1024: "pow2 1024 = 2 ^ 1024"
  by (simp add: pow2_def del: power_numeral)

lemma overflow_pow2: "overflow y = (if pow2 1024 \<le> y then PosInf else Finite y)"
  unfolding overflow_def pow2_1024 ..

lemma fl_pos_cases:
  assumes "0 \<le> x"
  shows "fl_pos x = PosInf \<or> (\<exists>r. 0 \<le> r \<and> fl_pos x = Finite r)"
  using nearest_nonneg [OF assms] by (simp add: fl_pos_def overflow_pow2)

lemma fl_cases:
  "(0 \<le> x \<longrightarrow> fl x = PosInf \<or> (\<exists>r. 0 \<le> r \<and> fl x = Finite r))
     \<and> (x < 0 \<longrightarrow> fl x = NegInf \<or> fl x = NegZero \<or> (\<exists>r. r < 0 \<and> fl x = Finite r))"
proof (cases "0 \<le> x")
  case True
  then show ?thesis using fl_pos_cases [of x] by (auto simp: fl_def)
next
  case False
  then have n: "0 \<le> - x" and x: "x < 0" "x \<noteq> 0" by simp_all
  have f: "fl x = js_neg (fl_pos (- x))" using x by (simp add: fl_def)
  from fl_pos_cases [OF n] consider "fl_pos (- x) = PosInf" | "fl_pos (- x) = Finite 0"
    | r where "0 < r" "fl_pos (- x) = Finite r"
    by (metis less_eq_real_def)
  then have "fl x = NegInf \<or> fl x = NegZero \<or> (\<exists>r. r < 0 \<and> fl x = Finite r)"
  proof cases
    case 1
    then show ?thesis by (simp add: f)
  next
    case 2
    then show ?thesis by (simp add: f)
  next
    case 3
    then have "fl x = Finite (- r)" "- r < 0" by (simp_all add: f)
    then show ?thesis by blast
  qed
  then show ?thesis using x by simp
qed

lemma fl_not_NaN: "fl x \<noteq> NaN"
  using fl_cases [of x] by (cases "0 \<le> x") auto

lemma fl_sign:
  assumes "0 \<le> x"
  shows "\<not> sign_bit (fl x)"
  using fl_cases [of x] assms by auto

lemma fl_0: "fl 0 = Finite 0"
  by (simp add: fl_def)

lemma math_abs_fl: "math_abs (fl y) = fl \<bar>y\<bar>"
proof (cases "0 \<le> y")
  case True
  then show ?thesis using fl_cases [of y] by auto
next
  case False
  then have n: "0 \<le> - y" by simp
  have "math_abs (js_neg (fl_pos (- y))) = fl_pos (- y)"
    using fl_pos_cases [OF n] by auto
  then show ?thesis using False by (simp add: fl_def)
qed

lemma js_le_refl: "a \<noteq> NaN \<Longrightarrow> js_le a a"
  by (cases a) (simp_all add: js_le_def js_lt_def)

lemma js_le_trans: "js_le a b \<Longrightarrow> js_le b c \<Longrightarrow> js_le a c"
  by (cases a; cases b; cases c) (simp_all add: js_le_def js_lt_def)

lemma js_le_neg: "js_le a b \<Longrightarrow> js_le (js_neg b) (js_neg a)"
  by (cases a; cases b) (simp_all add: js_le_def js_lt_def)

lemma js_le_zero:
  "js_le NegZero z = js_le (Finite 0) z" "js_le z NegZero = js_le z (Finite 0)"
  by (cases z; simp add: js_le_def js_lt_def)+

lemma js_le_signed_zero:
  "js_le (signed_zero s) z = js_le (Finite 0) z" "js_le z (signed_zero s) = js_le z (Finite 0)"
  by (simp_all add: signed_zero_def js_le_zero)

lemma js_le_Finite: "js_le (Finite r) (Finite r') = (r \<le> r')"
  by (auto simp: js_le_def js_lt_def)

lemma js_le_val:
  assumes "is_finite a" "is_finite b"
  shows "js_le a b = (val a \<le> val b)"
  using assms by (cases a; cases b) (auto simp: js_le_def js_lt_def)

lemma js_le_inf: "a \<noteq> NaN \<Longrightarrow> js_le NegInf a" "a \<noteq> NaN \<Longrightarrow> js_le a PosInf"
  by (cases a; simp add: js_le_def js_lt_def)+

lemma fl_pos_mono:
  assumes "0 < x" "x \<le> y"
  shows "js_le (fl_pos x) (fl_pos y)"
  using nearest_mono [OF assms]
  by (auto simp: fl_pos_def overflow_pow2 js_le_def js_lt_def)

lemma fl_nonneg:
  assumes "0 \<le> x"
  shows "js_le (Finite 0) (fl x)"
  using fl_cases [of x] assms by (auto simp: js_le_def js_lt_def)

lemma fl_nonpos:
  assumes "x \<le> 0"
  shows "js_le (fl x) (Finite 0)"
proof (cases "x = 0")
  case True
  then show ?thesis by (simp add: fl_0 js_le_Finite)
next
  case False
  then have "x < 0" using assms by simp
  then show ?thesis using fl_cases [of x] by (auto simp: js_le_def js_lt_def)
qed

lemma fl_mono:
  assumes "x \<le> y"
  shows "js_le (fl x) (fl y)"
proof -
  consider "0 < x" | "x \<le> 0" "0 \<le> y" | "y < 0" by linarith
  then show ?thesis
  proof cases
    case 1
    then show ?thesis using fl_pos_mono [OF 1 assms] assms by (simp add: fl_def)
  next
    case 2
    then show ?thesis using js_le_trans [OF fl_nonpos fl_nonneg] by simp
  next
    case 3
    then have "0 < - y" "- y \<le> - x" using assms by simp_all
    then have "js_le (fl_pos (- y)) (fl_pos (- x))" by (rule fl_pos_mono)
    then have "js_le (js_neg (fl_pos (- x))) (js_neg (fl_pos (- y)))" by (rule js_le_neg)
    then show ?thesis using 3 assms by (simp add: fl_def)
  qed
qed



section \<open>Monotonicity of the rounding to two decimals\<close>

lemma js_mul_finite1:
  assumes "is_finite a" "0 < c"
  shows "js_mul a (Finite c) \<noteq> NaN"
  using assms fl_not_NaN [of "val a * c"]
  by (cases a) (simp_all add: js_mul_def signed_zero_def)

lemma js_mul_finite2:
  assumes "is_finite a" "0 < c"
  shows "js_le (js_mul a (Finite c)) z = js_le (fl (val a * c)) z"
  using assms
  by (cases a) (simp_all add: js_mul_def js_le_signed_zero fl_0)

lemma js_mul_finite3:
  assumes "is_finite a" "0 < c"
  shows "js_le z (js_mul a (Finite c)) = js_le z (fl (val a * c))"
  using assms
  by (cases a) (simp_all add: js_mul_def js_le_signed_zero fl_0)

lemma js_div_finite1:
  assumes "is_finite a" "0 < c"
  shows "js_div a (Finite c) \<noteq> NaN"
  using assms fl_not_NaN [of "val a / c"]
  by (cases a) (simp_all add: js_div_def signed_zero_def)

lemma js_div_finite2:
  assumes "is_finite a" "0 < c"
  shows "js_le (js_div a (Finite c)) z = js_le (fl (val a / c)) z"
  using assms
  by (cases a) (simp_all add: js_div_def js_le_signed_zero fl_0)

lemma js_div_finite3:
  assumes "is_finite a" "0 < c"
  shows "js_le z (js_div a (Finite c)) = js_le z (fl (val a / c))"
  using assms
  by (cases a) (simp_all add: js_div_def js_le_signed_zero fl_0)

lemma math_round_finite:
  assumes "is_finite a"
  shows "is_finite (math_round a)"
    and "val (math_round a) = of_int \<lfloor>val a + 1 / 2\<rfloor>"
  using assms by (cases a; simp add: integer_result_def signed_zero_def)+

lemma js_mul_mono:
  assumes "js_le a b" "0 < c"
  shows "js_le (js_mul a (Finite c)) (js_mul b (Finite c))"
proof (cases "is_finite a \<and> is_finite b")
  case True
  then have "val a \<le> val b" using assms(1) js_le_val by simp
  then have "val a * c \<le> val b * c" using assms(2) by simp
  then show ?thesis
    using True fl_mono js_mul_finite2 [OF _ assms(2)] js_mul_finite3 [OF _ assms(2)]
    by simp
next
  case False
  then show ?thesis
    using assms
    by (cases a; cases b)
      (simp_all add: js_le_def js_lt_def js_mul_def signed_inf_def signed_zero_def fl_not_NaN)
qed

lemma js_div_mono:
  assumes "js_le a b" "0 < c"
  shows "js_le (js_div a (Finite c)) (js_div b (Finite c))"
proof (cases "is_finite a \<and> is_finite b")
  case True
  then have "val a \<le> val b" using assms(1) js_le_val by simp
  then have "val a / c \<le> val b / c" using assms(2) by (simp add: divide_right_mono)
  then show ?thesis
    using True fl_mono js_div_finite2 [OF _ assms(2)] js_div_finite3 [OF _ assms(2)]
    by simp
next
  case False
  then show ?thesis
    using assms
    by (cases a; cases b)
      (simp_all add: js_le_def js_lt_def js_div_def signed_inf_def signed_zero_def fl_not_NaN)
qed

lemma math_round_mono:
  assumes "js_le a b"
  shows "js_le (math_round a) (math_round b)"
proof (cases "is_finite a \<and> is_finite b")
  case True
  then have "val a \<le> val b" using assms js_le_val by simp
  then have "\<lfloor>val a + 1 / 2\<rfloor> \<le> \<lfloor>val b + 1 / 2\<rfloor>" by (intro floor_mono) simp
  then show ?thesis
    using True math_round_finite [of a] math_round_finite [of b]
    by (simp add: js_le_val)
next
  case False
  then show ?thesis
    using assms
    by (cases a; cases b)
      (simp_all add: js_le_def js_lt_def integer_result_def signed_zero_def)
qed

lemma round_digits_mono:
  assumes "js_le a b"
  shows "js_le (round_digits a 2) (round_digits b 2)"
proof -
  have "js_le (js_mul a (Finite 100)) (js_mul b (Finite 100))"
    using assms by (rule js_mul_mono) simp
  then have "js_le (math_round (js_mul a (Finite 100))) (math_round (js_mul b (Finite 100)))"
    by (rule math_round_mono)
  then have "js_le (js_div (math_round (js_mul a (Finite 100))) (Finite 100))
      (js_div (math_round (js_mul b (Finite 100))) (Finite 100))"
    by (rule js_div_mono) simp
  then show ?thesis by (simp add: round_digits_def Let_def)
qed
section \<open>Arrays: slices\<close>

lemma slice_nat:
  "a \<le> b \<Longrightarrow> b \<le> length xs \<Longrightarrow> slice xs (int a) (int b) = take (b - a) (drop a xs)"
  by (simp add: slice_def Let_def min_def nat_diff_distrib')

lemma slice_upt:
  assumes "a \<le> b" "b \<le> length xs"
  shows "slice xs (int a) (int b) = map ((!) xs) [a..<b]"
proof -
  have "take (b - a) (drop a xs) = map ((!) xs) [a..<b]"
    using assms by (simp add: list_eq_iff_nth_eq)
  then show ?thesis using assms by (simp add: slice_nat)
qed

lemma windowSlice_upt:
  assumes "i < length closes" "period \<le> i + 1"
  shows "windowSlice closes i period = map ((!) closes) [i + 1 - period..<i + 1]"
proof -
  have "max 0 (int i - int period + 1) = int (i + 1 - period)"
    using assms by simp
  moreover have "int i + 1 = int (i + 1)" by simp
  ultimately have "windowSlice closes i period = slice closes (int (i + 1 - period)) (int (i + 1))"
    unfolding windowSlice_def by presburger
  then show ?thesis using assms slice_upt [of "i + 1 - period" "i + 1" closes] by simp
qed

section \<open>The pass over the candles\<close>

lemma pushGainLoss_eq:
  "pushGainLoss closes index (gs, ls) = (gs @ [gain closes index], ls @ [loss closes index])"
  by (simp add: pushGainLoss_def gain_def loss_def Let_def)

lemma indicatorPoint_snd:
  "snd (indicatorPoint closes (gs, ls) c index) =
     (gs @ [gain closes index], ls @ [loss closes index])"
  by (simp add: indicatorPoint_def pushGainLoss_eq Let_def)

lemma mapCandles_Cons:
  "mapCandles closes (gs, ls) index (c # cs) =
     (fst (indicatorPoint closes (gs, ls) c index)
        # fst (mapCandles closes (gs @ [gain closes index], ls @ [loss closes index])
                 (Suc index) cs),
      snd (mapCandles closes (gs @ [gain closes index], ls @ [loss closes index])
             (Suc index) cs))"
  using indicatorPoint_snd [of closes gs ls c index]
  by (simp add: case_prod_beta Let_def)

lemma upt_shift: "[index..<index + Suc n] = index # [Suc index..<Suc index + n]"
  by (subst upt_rec) simp


lemma mapCandles_length: "length (fst (mapCandles closes gl index cs)) = length cs"
proof (induction cs arbitrary: gl index)
  case Nil
  then show ?case by simp
next
  case (Cons c cs)
  obtain gs ls where gl: "gl = (gs, ls)" by (cases gl)
  show ?case unfolding gl mapCandles_Cons using Cons.IH by simp
qed

lemma mapCandles_nth:
  "k < length cs \<Longrightarrow>
   fst (mapCandles closes (gs, ls) index cs) ! k =
     fst (indicatorPoint closes
            (gs @ map (gain closes) [index..<index + k],
             ls @ map (loss closes) [index..<index + k]) (cs ! k) (index + k))"
proof (induction cs arbitrary: gs ls index k)
  case Nil
  then show ?case by simp
next
  case (Cons c cs)
  show ?case
  proof (cases k)
    case 0
    then show ?thesis by (simp add: mapCandles_Cons del: mapCandles.simps)
  next
    case (Suc k')
    then have k': "k' < length cs" using Cons.prems by simp
    have "fst (mapCandles closes (gs, ls) index (c # cs)) ! k =
          fst (mapCandles closes (gs @ [gain closes index], ls @ [loss closes index])
                 (Suc index) cs) ! k'"
      unfolding Suc by (simp only: mapCandles_Cons fst_conv nth_Cons_Suc)
    also have "\<dots> = fst (indicatorPoint closes
            ((gs @ [gain closes index]) @ map (gain closes) [Suc index..<Suc index + k'],
             (ls @ [loss closes index]) @ map (loss closes) [Suc index..<Suc index + k'])
            (cs ! k') (Suc index + k'))"
      by (rule Cons.IH [OF k'])
    also have "\<dots> = fst (indicatorPoint closes
            (gs @ map (gain closes) (index # [Suc index..<Suc index + k']),
             ls @ map (loss closes) (index # [Suc index..<Suc index + k']))
            ((c # cs) ! Suc k') (index + Suc k'))"
      by (simp del: upt_Suc)
    finally show ?thesis
      unfolding Suc by (simp only: upt_shift)
  qed
qed

lemma addIndicators_length: "length (addIndicators cs) = length cs"
  by (simp add: addIndicators_def addIndicators_arrays_def mapCandles_length)

lemma addIndicators_nth:
  assumes "i < length cs"
  shows "addIndicators cs ! i =
     \<lparr> date = date (cs ! i), open_price = open_price (cs ! i), high = high (cs ! i),
       low = low (cs ! i), close = close (cs ! i), volume = volume (cs ! i),
       sma10 = computeSMA (map close cs) i 10,
       sma20 = computeSMA (map close cs) i 20,
       sma50 = computeSMA (map close cs) i 50,
       rsi14 = computeRSI (map (gain (map close cs)) [0..<i + 1])
                 (map (loss (map close cs)) [0..<i + 1]) i 14 \<rparr>"
  using mapCandles_nth [OF assms, of "map close cs" "[]" "[]" 0]
  by (simp add: addIndicators_def addIndicators_arrays_def indicatorPoint_def
      pushGainLoss_eq Let_def)


section \<open>Evaluating the arithmetic\<close>

lemmas js_arith = js_add_def js_sub_def js_mul_def js_div_def fl_def fl_pos_def overflow_def
  nearest_def on_grid_def ulp_of_def round_even_def tie_even_def expo_def expo_below_def
  pow2_def compute_bitlen integer_result_def signed_zero_def signed_inf_def
  math_max_def math_min_def max2_def min2_def js_lt_def js_gt_def js_le_def is_zero_def
  js_truthy_def reduce_add_def

lemmas js_eval = js_arith round_digits_def

section \<open>The enriched sequence\<close>

lemma addIndicators_Nil: "addIndicators [] = []"
  by (simp add: addIndicators_def addIndicators_arrays_def)

lemma map_addIndicators:
  assumes "\<And>i. i < length candles \<Longrightarrow> f (addIndicators candles ! i) = g (candles ! i)"
  shows "map f (addIndicators candles) = map g candles"
  by (rule nth_equalityI) (simp_all add: addIndicators_length assms)

text \<open>
  C8. \<open>addIndicators\<close> returns one point for each candle, in the order of the candles:
  the result has the length of the input, and the dates, opens, highs, lows, closes and
  volumes of its points are, index by index, those of the candles. The empty sequence
  gives the empty sequence.
\<close>

theorem addIndicators_one_to_one:
  "length (addIndicators candles) = length candles
     \<and> map date (addIndicators candles) = map date candles
     \<and> map open_price (addIndicators candles) = map open_price candles
     \<and> map high (addIndicators candles) = map high candles
     \<and> map low (addIndicators candles) = map low candles
     \<and> map close (addIndicators candles) = map close candles
     \<and> map volume (addIndicators candles) = map volume candles
     \<and> addIndicators [] = []"
  by (simp add: addIndicators_length map_addIndicators addIndicators_nth addIndicators_Nil)

section \<open>Simple moving averages\<close>

lemma closes_upt:
  assumes "b \<le> length cs"
  shows "map ((!) (map close cs)) [a..<b] = map (\<lambda>j. close (cs ! j)) [a..<b]"
  using assms by (intro map_cong) auto

lemma computeSMA_at:
  assumes "i < length cs"
  shows "computeSMA (map close cs) i period =
     (if period \<le> i + 1
      then Some (js_div
                   (math_round
                      (js_mul
                         (js_div
                            (foldl js_add (Finite 0)
                               (map (\<lambda>j. close (cs ! j)) [i + 1 - period..<i + 1]))
                            (Finite (real period)))
                         (Finite 100)))
                   (Finite 100))
      else None)"
proof (cases "period \<le> i + 1")
  case True
  have w: "windowSlice (map close cs) i period =
             map (\<lambda>j. close (cs ! j)) [i + 1 - period..<i + 1]"
    using windowSlice_upt [of i "map close cs" period] closes_upt [of "i + 1" cs] assms True
    by simp
  have "\<not> i + 1 < period" using True by simp
  then show ?thesis
    unfolding computeSMA_def Let_def w reduce_add_def round_digits_def using True by simp
next
  case False
  then show ?thesis by (simp add: computeSMA_def)
qed

text \<open>
  C1, as amended. At every index \<open>i\<close> of the result of \<open>addIndicators\<close> and for each period
  \<open>n\<close> of 10, 20 and 50, the field \<open>sma n\<close> is present exactly when \<open>i + 1 \<ge> n\<close>. Its value
  is then computed in binary64: the closes at the indices \<open>i - n + 1\<close> to \<open>i\<close> are added
  from the left, starting from 0, each sum rounded; the sum is divided by \<open>n\<close>; the
  quotient is multiplied by 100, rounded by \<open>Math.round\<close> and divided by 100.
\<close>

theorem sma_binary64:
  assumes "i < length candles"
  shows "sma10 (addIndicators candles ! i) =
           (if 10 \<le> i + 1
            then Some (js_div
                         (math_round
                            (js_mul
                               (js_div
                                  (foldl js_add (Finite 0)
                                     (map (\<lambda>j. close (candles ! j)) [i + 1 - 10..<i + 1]))
                                  (Finite 10))
                               (Finite 100)))
                         (Finite 100))
            else None)
       \<and> sma20 (addIndicators candles ! i) =
           (if 20 \<le> i + 1
            then Some (js_div
                         (math_round
                            (js_mul
                               (js_div
                                  (foldl js_add (Finite 0)
                                     (map (\<lambda>j. close (candles ! j)) [i + 1 - 20..<i + 1]))
                                  (Finite 20))
                               (Finite 100)))
                         (Finite 100))
            else None)
       \<and> sma50 (addIndicators candles ! i) =
           (if 50 \<le> i + 1
            then Some (js_div
                         (math_round
                            (js_mul
                               (js_div
                                  (foldl js_add (Finite 0)
                                     (map (\<lambda>j. close (candles ! j)) [i + 1 - 50..<i + 1]))
                                  (Finite 50))
                               (Finite 100)))
                         (Finite 100))
            else None)"
  using computeSMA_at [OF assms, of 10] computeSMA_at [OF assms, of 20]
    computeSMA_at [OF assms, of 50]
  by (simp add: addIndicators_nth [OF assms])

lemma upt_0_10: "[0..<10] = [0, 1, 2, 3, 4, 5, 6, 7, 8, 9]"
  by code_simp

lemma ten_sma10:
  "js_div
     (math_round
        (js_mul
           (js_div (foldl js_add (Finite 0) (map (\<lambda>j. close (ten ! j)) [0..<10])) (Finite 10))
           (Finite 100)))
     (Finite 100) = Finite (11 / 2)"
proof -
  have "map (\<lambda>j. close (ten ! j)) [0..<10] = map Finite [1, 2, 3, 4, 5, 6, 7, 8, 9, 10]"
    unfolding upt_0_10 by (simp add: ten_def candles_at_def candle_at_def)
  moreover have "foldl js_add (Finite 0) (map Finite [1, 2, 3, 4, 5, 6, 7, 8, 9, 10]) = Finite 55"
    by (simp add: js_eval)
  moreover have
    "js_div (math_round (js_mul (js_div (Finite 55) (Finite 10)) (Finite 100))) (Finite 100)
       = Finite (11 / 2)"
    by (simp add: js_eval)
  ultimately show ?thesis by (simp only:)
qed

lemma step_up_sma10:
  "js_div
     (math_round
        (js_mul
           (js_div (foldl js_add (Finite 0) (map (\<lambda>j. close (step_up ! j)) [0..<10]))
              (Finite 10))
           (Finite 100)))
     (Finite 100) = fl (102 / 100)"
proof -
  have "map (\<lambda>j. close (step_up ! j)) [0..<10] =
          map Finite [1, 1, 1, 1, 1, 1, 1, 1, 1, 5 / 4]"
    unfolding upt_0_10 by (simp add: step_up_def candles_at_def candle_at_def)
  moreover have
    "foldl js_add (Finite 0) (map Finite [1, 1, 1, 1, 1, 1, 1, 1, 1, 5 / 4]) = Finite (41 / 4)"
    by (simp add: js_eval)
  moreover have
    "js_div (math_round (js_mul (js_div (Finite (41 / 4)) (Finite 10)) (Finite 100))) (Finite 100)
       = fl (102 / 100)"
    by (simp add: js_eval)
  ultimately show ?thesis by (simp only:)
qed

text \<open>
  For the ten candles closing at 1 to 10, \<open>sma10\<close> at the last index is 5.5. For nine
  closes of 1 and one of 1.25 it is the binary64 value of 1.02: the quotient of 10.25 by
  10 is a binary64 value below 1.025.
\<close>

theorem sma_binary64_witness:
  "9 < length ten \<and> sma10 (addIndicators ten ! 9) = Some (Finite (11 / 2))
     \<and> sma20 (addIndicators ten ! 9) = None \<and> sma50 (addIndicators ten ! 9) = None
     \<and> 9 < length step_up \<and> sma10 (addIndicators step_up ! 9) = Some (fl (102 / 100))"
proof -
  have len: "9 < length ten" "9 < length step_up"
    by (simp_all add: ten_def step_up_def candles_at_def)
  show ?thesis
    using sma_binary64 [OF len(1)] sma_binary64 [OF len(2)] len
    by (simp add: ten_sma10 step_up_sma10)
qed

text \<open>
  C1, as stated, fails on nine closes of 1 and one of 1.25: the mean is 1.025, which
  rounds to 1.03, and the program returns the binary64 value of 1.02.
\<close>

theorem sma_exact_mean_counterexample:
  "sma10 (addIndicators step_up ! 9) = Some (fl (102 / 100))
     \<and> exact_sma (map close step_up) 9 10 = 103 / 100
     \<and> fl (102 / 100) \<noteq> fl (103 / 100)
     \<and> val (fl (102 / 100)) \<noteq> 103 / 100"
proof -
  have len: "9 < length step_up" by (simp add: step_up_def candles_at_def)
  have "sma10 (addIndicators step_up ! 9) = Some (fl (102 / 100))"
    using computeSMA_at [OF len, of 10]
    by (simp add: addIndicators_nth [OF len] step_up_sma10)
  moreover have s: "(\<Sum>j = 0..9. val (map close step_up ! j)) = 41 / 4"
    by (simp add: step_up_def candles_at_def candle_at_def eval_nat_numeral)
  have "exact_sma (map close step_up) 9 10 = 103 / 100"
    by (simp add: exact_sma_def s round_half_away_from_zero_def)
  moreover have "fl (102 / 100) \<noteq> fl (103 / 100)" "val (fl (102 / 100)) \<noteq> 103 / 100"
    by (simp_all add: js_eval)
  ultimately show ?thesis by simp
qed
section \<open>Relative strength index\<close>

lemma recent_upt:
  assumes "14 \<le> i"
  shows "slice (map f [0..<i + 1]) (int i - int 14 + 1) (int i + 1) = map f [i - 13..<i + 1]"
proof -
  have a: "int i - int 14 + 1 = int (i - 13)" using assms by simp
  have b: "int i + 1 = int (i + 1)" by simp
  have "slice (map f [0..<i + 1]) (int (i - 13)) (int (i + 1)) =
          map ((!) (map f [0..<i + 1])) [i - 13..<i + 1]"
    by (rule slice_upt) simp_all
  also have "\<dots> = map f [i - 13..<i + 1]"
    by (intro map_cong) (simp_all del: upt_Suc)
  finally show ?thesis unfolding a b .
qed

lemma computeRSI_at:
  assumes "14 \<le> i"
  shows "computeRSI (map g [0..<i + 1]) (map l [0..<i + 1]) i 14 =
     Some (rsi_rule (js_div (foldl js_add (Finite 0) (map g [i - 13..<i + 1])) (Finite 14))
             (js_div (foldl js_add (Finite 0) (map l [i - 13..<i + 1])) (Finite 14)))"
  unfolding computeRSI_def Let_def recent_upt [OF assms] rsi_rule_def reduce_add_def
    round_digits_def
  using assms by simp

lemma rsi14_at:
  assumes "i < length candles"
  shows "IndicatorPoint.rsi14 (addIndicators candles ! i) =
     (if 14 \<le> i
      then Some (rsi_rule
                   (js_div
                      (foldl js_add (Finite 0) (map (gain (map close candles)) [i - 13..<i + 1]))
                      (Finite 14))
                   (js_div
                      (foldl js_add (Finite 0) (map (loss (map close candles)) [i - 13..<i + 1]))
                      (Finite 14)))
      else None)"
proof -
  have field: "IndicatorPoint.rsi14 (addIndicators candles ! i) =
      computeRSI (map (gain (map close candles)) [0..<i + 1])
        (map (loss (map close candles)) [0..<i + 1]) i 14"
    by (simp add: addIndicators_nth [OF assms])
  show ?thesis
  proof (cases "14 \<le> i")
    case True
    then show ?thesis
      unfolding field computeRSI_at [OF True] by simp
  next
    case False
    then show ?thesis
      unfolding field by (simp add: computeRSI_def)
  qed
qed









section \<open>The fields of the analysis\<close>

lemma analyzeNifty_Nil: "analyzeNifty [] = Inl (Error ''No candles provided for analysis'')"
  by (simp add: analyzeNifty_def)

lemma last_enriched:
  "candles \<noteq> [] \<Longrightarrow>
     addIndicators candles ! (length (addIndicators candles) - 1) = last (addIndicators candles)"
  by (metis addIndicators_length last_conv_nth length_0_conv)

lemma last_enriched_close:
  assumes "candles \<noteq> []"
  shows "close (last (addIndicators candles)) = close (last candles)"
proof -
  have "length candles - 1 < length candles" using assms by simp
  then show ?thesis
    using assms
    by (simp add: last_enriched [symmetric] addIndicators_length addIndicators_nth last_conv_nth)
qed

lemma analyzeNifty_Inr:
  assumes "candles \<noteq> []"
  shows "\<exists>r. analyzeNifty candles = Inr r"
  using assms by (simp add: analyzeNifty_def Let_def case_prod_beta)

lemma analyzeNifty_lastClose:
  assumes "analyzeNifty candles = Inr r"
  shows "lastClose r = round_digits (close (last candles)) 2"
proof -
  have ne: "candles \<noteq> []" using assms by (auto simp: analyzeNifty_def)
  have len: "(length candles = 0) = False" using ne by simp
  have r: "r = projr (analyzeNifty candles)" using assms by simp
  show ?thesis
    unfolding r analyzeNifty_def len if_False Let_def case_prod_beta
      last_enriched [OF ne] last_enriched_close [OF ne]
    by (simp split del: if_split)
qed

lemma analyzeNifty_rsi14:
  assumes "analyzeNifty candles = Inr r"
  shows "NiftyAnalysis.rsi14 r = IndicatorPoint.rsi14 (last (addIndicators candles))"
proof -
  have ne: "candles \<noteq> []" using assms by (auto simp: analyzeNifty_def)
  have len: "(length candles = 0) = False" using ne by simp
  have r: "r = projr (analyzeNifty candles)" using assms by simp
  show ?thesis
    unfolding r analyzeNifty_def len if_False Let_def case_prod_beta
      last_enriched [OF ne] last_enriched_close [OF ne]
    by (simp split del: if_split)
qed

lemma analyzeNifty_supportZone:
  assumes "analyzeNifty candles = Inr r"
  shows "supportZone r =
     (if length (slice_from candles (- 15)) > 0
      then Some (round_digits (math_min (map low (slice_from candles (- 15)))) 2)
      else None)"
proof -
  have ne: "candles \<noteq> []" using assms by (auto simp: analyzeNifty_def)
  have len: "(length candles = 0) = False" using ne by simp
  have r: "r = projr (analyzeNifty candles)" using assms by simp
  show ?thesis
    unfolding r analyzeNifty_def len if_False Let_def case_prod_beta
      last_enriched [OF ne] last_enriched_close [OF ne]
    by (simp split del: if_split)
qed

lemma analyzeNifty_resistanceZone:
  assumes "analyzeNifty candles = Inr r"
  shows "resistanceZone r =
     (if length (slice_from candles (- 15)) > 0
      then Some (round_digits (math_max (map high (slice_from candles (- 15)))) 2)
      else None)"
proof -
  have ne: "candles \<noteq> []" using assms by (auto simp: analyzeNifty_def)
  have len: "(length candles = 0) = False" using ne by simp
  have r: "r = projr (analyzeNifty candles)" using assms by simp
  show ?thesis
    unfolding r analyzeNifty_def len if_False Let_def case_prod_beta
      last_enriched [OF ne] last_enriched_close [OF ne]
    by (simp split del: if_split)
qed

lemma analyzeNifty_momentumPct5Day:
  assumes "analyzeNifty candles = Inr r"
  shows "momentumPct5Day r =
     (case (case at_index candles (int (length candles) - 6) of
              Some c \<Rightarrow> Some c
            | None \<Rightarrow> at_index candles 0) of
        Some ref \<Rightarrow>
          Some (round_digits
                  (js_mul (js_div (js_sub (close (last candles)) (close ref)) (close ref))
                     (Finite 100)) 2)
      | None \<Rightarrow> None)"
proof -
  have ne: "candles \<noteq> []" using assms by (auto simp: analyzeNifty_def)
  have len: "(length candles = 0) = False" using ne by simp
  have r: "r = projr (analyzeNifty candles)" using assms by simp
  show ?thesis
    unfolding r analyzeNifty_def len if_False Let_def case_prod_beta
      last_enriched [OF ne] last_enriched_close [OF ne]
    by (simp split del: if_split)
qed

lemma analyzeNifty_bias:
  assumes "analyzeNifty candles = Inr r"
  shows "bias r =
     (let sma20 = sma20 (last (addIndicators candles));
          sma50 = sma50 (last (addIndicators candles))
      in if truthy sma20 \<and> truthy sma50
         then (if js_gt (lastClose r) (the sma20) \<and> js_gt (the sma20) (the sma50) then Bullish
               else if js_lt (lastClose r) (the sma20) \<and> js_lt (the sma20) (the sma50)
               then Bearish
               else Neutral)
         else Neutral)"
proof -
  have ne: "candles \<noteq> []" using assms by (auto simp: analyzeNifty_def)
  have len: "(length candles = 0) = False" using ne by simp
  have r: "r = projr (analyzeNifty candles)" using assms by simp
  show ?thesis
    unfolding analyzeNifty_lastClose [OF assms]
    unfolding r analyzeNifty_def len if_False Let_def case_prod_beta
      last_enriched [OF ne] last_enriched_close [OF ne]
    by (simp split del: if_split)
qed

lemma analyzeNifty_confidence:
  assumes "analyzeNifty candles = Inr r"
  shows "confidence r =
     (let rsi14 = IndicatorPoint.rsi14 (last (addIndicators candles));
          sma20 = sma20 (last (addIndicators candles));
          sma50 = sma50 (last (addIndicators candles))
      in if rsi14 \<noteq> None \<and> sma20 \<noteq> None \<and> sma50 \<noteq> None
         then
           let distanceFromSma =
                 math_abs (js_div (js_sub (lastClose r) (the sma20)) (the sma20))
           in if js_lt distanceFromSma (fl 0.005)
                 \<and> js_lt (math_abs (js_div (js_sub (the sma20) (the sma50)) (the sma50)))
                      (fl 0.003)
              then Low
              else if js_gt distanceFromSma (fl 0.02)
                      \<or> (js_gt (the rsi14) (Finite 68) \<or> js_lt (the rsi14) (Finite 32))
              then High
              else Medium
         else Medium)"
proof -
  have ne: "candles \<noteq> []" using assms by (auto simp: analyzeNifty_def)
  have len: "(length candles = 0) = False" using ne by simp
  have r: "r = projr (analyzeNifty candles)" using assms by simp
  show ?thesis
    unfolding analyzeNifty_lastClose [OF assms]
    unfolding r analyzeNifty_def len if_False Let_def case_prod_beta
      last_enriched [OF ne] last_enriched_close [OF ne]
    by (simp split del: if_split)
qed

lemma analyzeNifty_nextMoveHeadline:
  assumes "analyzeNifty candles = Inr r"
  shows "nextMoveHeadline r =
     (if bias r = Bullish then
        (if NiftyAnalysis.rsi14 r \<noteq> None \<and> js_gt (the (NiftyAnalysis.rsi14 r)) (Finite 68)
         then ''Uptrend extended but stretched''
         else ''Upside continuation favoured'')
      else if bias r = Bearish then
        (if NiftyAnalysis.rsi14 r \<noteq> None \<and> js_lt (the (NiftyAnalysis.rsi14 r)) (Finite 32)
         then ''Downtrend oversold''
         else ''Downside pressure building'')
      else ''Sideways consolidation likely'')"
proof -
  have ne: "candles \<noteq> []" using assms by (auto simp: analyzeNifty_def)
  have len: "(length candles = 0) = False" using ne by simp
  have r: "r = projr (analyzeNifty candles)" using assms by simp
  show ?thesis
    unfolding analyzeNifty_bias [OF assms] analyzeNifty_lastClose [OF assms] analyzeNifty_rsi14 [OF assms]
    unfolding r analyzeNifty_def len if_False Let_def case_prod_beta
      last_enriched [OF ne] last_enriched_close [OF ne]
      if_distrib [of fst] if_distrib [of snd] fst_conv snd_conv
    by (simp split del: if_split)
qed

lemma analyzeNifty_narrative:
  assumes "analyzeNifty candles = Inr r"
  shows "narrative r =
     (let momentumOr0 =
            (case momentumPct5Day r of Some m \<Rightarrow> Num m | None \<Rightarrow> Num (Finite 0));
          sma20 = sma20 (last (addIndicators candles))
      in if bias r = Bullish then
           (if NiftyAnalysis.rsi14 r \<noteq> None \<and> js_gt (the (NiftyAnalysis.rsi14 r)) (Finite 68)
            then
              [Lit ''Momentum stays positive with price riding above the 20-day average, though RSI at '',
               Num (the (NiftyAnalysis.rsi14 r)),
               Lit '' signals potential cooling. Pullbacks toward '',
               interp sma20 ''the 20-day SMA'',
               Lit '' could offer dip opportunities while '',
               interp (supportZone r) ''recent support'',
               Lit '' holds.'']
            else
              [Lit ''Price holds above the rising 20- and 50-day averages with '',
               momentumOr0,
               Lit ''% five-day momentum. A sustained move above '',
               interp (resistanceZone r) ''recent highs'',
               Lit '' would extend the rally, while '',
               interp (supportZone r) ''nearby support'',
               Lit '' remains the risk marker.''])
         else if bias r = Bearish then
           (if NiftyAnalysis.rsi14 r \<noteq> None \<and> js_lt (the (NiftyAnalysis.rsi14 r)) (Finite 32)
            then
              [Lit ''Nifty is trading beneath its short- and medium-term averages with RSI at '',
               Num (the (NiftyAnalysis.rsi14 r)),
               Lit '', flagging a stretched sell-off. A pause or mean reversion bounce is possible unless '',
               interp (supportZone r) ''support'',
               Lit '' breaks decisively.'']
            else
              [Lit ''Lower highs persist beneath the 20- and 50-day averages. Momentum over the last week sits at '',
               momentumOr0,
               Lit ''%. Losing '',
               interp (supportZone r) ''recent support'',
               Lit '' would unlock deeper retracements, while reclaiming '',
               interp sma20 ''the 20-day SMA'',
               Lit '' is needed to neutralise the trend.''])
         else
           [Lit ''Nifty appears range-bound as key moving averages converge. Traders may focus on breakouts from recent levels.''])"
proof -
  have ne: "candles \<noteq> []" using assms by (auto simp: analyzeNifty_def)
  have len: "(length candles = 0) = False" using ne by simp
  have r: "r = projr (analyzeNifty candles)" using assms by simp
  show ?thesis
    unfolding analyzeNifty_bias [OF assms] analyzeNifty_lastClose [OF assms] analyzeNifty_rsi14 [OF assms] analyzeNifty_momentumPct5Day [OF assms] analyzeNifty_supportZone [OF assms] analyzeNifty_resistanceZone [OF assms]
    unfolding r analyzeNifty_def len if_False Let_def case_prod_beta
      last_enriched [OF ne] last_enriched_close [OF ne]
      if_distrib [of fst] if_distrib [of snd] fst_conv snd_conv
    by (simp split del: if_split)
qed

section \<open>Comparisons\<close>

lemma js_lt_asym: "js_lt a b \<Longrightarrow> \<not> js_lt b a"
  by (auto simp: js_lt_def split: if_splits)

lemma js_lt_NaN [simp]: "\<not> js_lt NaN b" "\<not> js_lt a NaN"
  by (simp_all add: js_lt_def)

lemma js_gt_NaN [simp]: "\<not> js_gt NaN b" "\<not> js_gt a NaN"
  by (simp_all add: js_gt_def)

lemma not_truthy: "\<not> js_truthy a \<Longrightarrow> \<not> is_zero a \<Longrightarrow> a = NaN"
  by (simp add: js_truthy_def)

section \<open>Zones and momentum\<close>

lemma slice_from_last: "slice_from xs (- 15) = drop (length xs - 15) xs"
  by (simp add: slice_from_def slice_def Let_def max_def nat_diff_distrib')

lemma recent_nonempty:
  assumes "xs \<noteq> []"
  shows "drop (length xs - 15) xs \<noteq> []"
proof -
  have "0 < length xs" using assms by simp
  then have "length xs - 15 < length xs" by arith
  then show ?thesis by simp
qed

lemma recent_window: "drop (length xs - min 15 (length xs)) xs = drop (length xs - 15) xs"
  by (simp add: min_def)

lemma analyzeNifty_zones:
  assumes "analyzeNifty candles = Inr r"
  shows "supportZone r =
           Some (round_digits (math_min (map low (drop (length candles - 15) candles))) 2)"
    and "resistanceZone r =
           Some (round_digits (math_max (map high (drop (length candles - 15) candles))) 2)"
proof -
  have ne: "candles \<noteq> []" using assms by (auto simp: analyzeNifty_def)
  then have w: "0 < length (drop (length candles - 15) candles)"
    using recent_nonempty [OF ne] by simp
  show "supportZone r =
           Some (round_digits (math_min (map low (drop (length candles - 15) candles))) 2)"
    unfolding analyzeNifty_supportZone [OF assms] slice_from_last using w by simp
  show "resistanceZone r =
           Some (round_digits (math_max (map high (drop (length candles - 15) candles))) 2)"
    unfolding analyzeNifty_resistanceZone [OF assms] slice_from_last using w by simp
qed

lemma analyzeNifty_momentum_present:
  assumes "analyzeNifty candles = Inr r"
  shows "momentumPct5Day r \<noteq> None"
proof -
  have ne: "candles \<noteq> []" using assms by (auto simp: analyzeNifty_def)
  then have "at_index candles 0 \<noteq> None" by (simp add: at_index_def)
  then show ?thesis
    unfolding analyzeNifty_momentumPct5Day [OF assms] by (auto split: option.splits)
qed

section \<open>The sixty rising candles\<close>

lemma last_point:
  assumes "candles \<noteq> []"
  shows "sma20 (last (addIndicators candles)) =
           computeSMA (map close candles) (length candles - 1) 20"
    and "sma50 (last (addIndicators candles)) =
           computeSMA (map close candles) (length candles - 1) 50"
    and "IndicatorPoint.rsi14 (last (addIndicators candles)) =
           computeRSI (map (gain (map close candles)) [0..<length candles])
             (map (loss (map close candles)) [0..<length candles]) (length candles - 1) 14"
proof -
  have i: "length candles - 1 < length candles" using assms by simp
  have l: "last (addIndicators candles) = addIndicators candles ! (length candles - 1)"
    using last_enriched [OF assms] by (simp add: addIndicators_length)
  have s: "length candles - 1 + 1 = length candles" using assms by simp
  show "sma20 (last (addIndicators candles)) =
           computeSMA (map close candles) (length candles - 1) 20"
    and "sma50 (last (addIndicators candles)) =
           computeSMA (map close candles) (length candles - 1) 50"
    and "IndicatorPoint.rsi14 (last (addIndicators candles)) =
           computeRSI (map (gain (map close candles)) [0..<length candles])
             (map (loss (map close candles)) [0..<length candles]) (length candles - 1) 14"
    unfolding l addIndicators_nth [OF i] s by simp_all
qed

lemma sixty_closes:
  "map close sixty = map Finite [2, 4, 6, 8, 10, 12, 14, 16, 18, 20, 22, 24, 26, 28, 30, 32, 34,
     36, 38, 40, 42, 44, 46, 48, 50, 52, 54, 56, 58, 60, 62, 64, 66, 68, 70, 72, 74, 76, 78, 80,
     82, 84, 86, 88, 90, 92, 94, 96, 98, 100, 102, 104, 106, 108, 110, 112, 114, 116, 118, 120]"
  by (simp add: sixty_def candles_at_def candle_at_def)

lemma sixty_length: "length sixty = 60" "sixty \<noteq> []"
  by (simp_all add: sixty_def candles_at_def)

lemma sixty_last: "last sixty = candle_at (Finite 120)"
  by (simp add: sixty_def candles_at_def)

lemma sixty_sma20: "sma20 (last (addIndicators sixty)) = Some (Finite 101)"
proof -
  have w: "windowSlice (map close sixty) 59 20 =
      map Finite [82, 84, 86, 88, 90, 92, 94, 96, 98, 100, 102, 104, 106, 108, 110, 112, 114,
        116, 118, 120]"
    unfolding sixty_closes by (simp add: windowSlice_def slice_def)
  have s: "reduce_add (map Finite [82, 84, 86, 88, 90, 92, 94, 96, 98, 100, 102, 104, 106, 108,
      110, 112, 114, 116, 118, 120]) = Finite 2020"
    by (simp add: js_eval)
  have q: "round_digits (js_div (Finite 2020) (Finite 20)) 2 = Finite 101"
    by (simp add: js_eval)
  have c: "computeSMA (map close sixty) 59 20 = Some (Finite 101)"
    unfolding computeSMA_def Let_def w s by (simp add: q)
  show ?thesis
    unfolding last_point(1) [OF sixty_length(2)] sixty_length(1) by (simp add: c)
qed

lemma sixty_sma50: "sma50 (last (addIndicators sixty)) = Some (Finite 71)"
proof -
  have w: "windowSlice (map close sixty) 59 50 =
      map Finite [22, 24, 26, 28, 30, 32, 34, 36, 38, 40, 42, 44, 46, 48, 50, 52, 54, 56, 58,
        60, 62, 64, 66, 68, 70, 72, 74, 76, 78, 80, 82, 84, 86, 88, 90, 92, 94, 96, 98, 100,
        102, 104, 106, 108, 110, 112, 114, 116, 118, 120]"
    unfolding sixty_closes by (simp add: windowSlice_def slice_def)
  have s: "reduce_add (map Finite [22, 24, 26, 28, 30, 32, 34, 36, 38, 40, 42, 44, 46, 48, 50,
      52, 54, 56, 58, 60, 62, 64, 66, 68, 70, 72, 74, 76, 78, 80, 82, 84, 86, 88, 90, 92, 94,
      96, 98, 100, 102, 104, 106, 108, 110, 112, 114, 116, 118, 120]) = Finite 3550"
    by (simp add: js_eval)
  have q: "round_digits (js_div (Finite 3550) (Finite 50)) 2 = Finite 71"
    by (simp add: js_eval)
  have c: "computeSMA (map close sixty) 59 50 = Some (Finite 71)"
    unfolding computeSMA_def Let_def w s by (simp add: q)
  show ?thesis
    unfolding last_point(2) [OF sixty_length(2)] sixty_length(1) by (simp add: c)
qed

lemma upt_46_60: "[46..<60] = [46, 47, 48, 49, 50, 51, 52, 53, 54, 55, 56, 57, 58, 59]"
  by code_simp

lemma sixty_average_loss:
  "is_zero
     (js_div (foldl js_add (Finite 0) (map (loss (map close sixty)) [46..<60])) (Finite 14))"
proof -
  have ls: "map (loss (map close sixty)) [46..<60] =
      map Finite [0, 0, 0, 0, 0, 0, 0, 0, 0, 0, 0, 0, 0, 0]"
    unfolding sixty_closes upt_46_60 by (simp add: loss_def js_eval)
  have s: "foldl js_add (Finite 0) (map Finite [0, 0, 0, 0, 0, 0, 0, 0, 0, 0, 0, 0, 0, 0])
      = Finite 0"
    by (simp add: js_eval)
  have z: "is_zero (js_div (Finite 0) (Finite 14))"
    by (simp add: js_eval)
  show ?thesis unfolding ls s using z .
qed

lemma sixty_rsi14: "IndicatorPoint.rsi14 (last (addIndicators sixty)) = Some (Finite 100)"
proof -
  have i: "59 < length sixty" by (simp add: sixty_length)
  have l: "last (addIndicators sixty) = addIndicators sixty ! 59"
    using last_enriched [OF sixty_length(2)] by (simp add: addIndicators_length sixty_length)
  have "IndicatorPoint.rsi14 (addIndicators sixty ! 59) =
      Some (rsi_rule
              (js_div (foldl js_add (Finite 0) (map (gain (map close sixty)) [46..<60]))
                 (Finite 14))
              (js_div (foldl js_add (Finite 0) (map (loss (map close sixty)) [46..<60]))
                 (Finite 14)))"
    using rsi14_at [OF i] by simp
  also have "\<dots> = Some (Finite 100)"
    unfolding rsi_rule_def using sixty_average_loss by simp
  finally show ?thesis unfolding l .
qed

lemma sixty_lastClose:
  assumes "analyzeNifty sixty = Inr r"
  shows "lastClose r = Finite 120"
  unfolding analyzeNifty_lastClose [OF assms] sixty_last
  by (simp add: candle_at_def js_eval)

lemma sixty_bias:
  assumes "analyzeNifty sixty = Inr r"
  shows "bias r = Bullish"
  unfolding analyzeNifty_bias [OF assms] sixty_lastClose [OF assms] sixty_sma20 sixty_sma50
  by (simp add: js_eval)

lemma sixty_window:
  "drop (length sixty - 15) sixty =
     map candle_at (map Finite
       [92, 94, 96, 98, 100, 102, 104, 106, 108, 110, 112, 114, 116, 118, 120])"
  by (simp add: sixty_def candles_at_def)

lemma sixty_zones:
  assumes "analyzeNifty sixty = Inr r"
  shows "supportZone r = Some (Finite 92)" "resistanceZone r = Some (Finite 120)"
proof -
  have lo: "math_min (map low (map candle_at (map Finite
        [92, 94, 96, 98, 100, 102, 104, 106, 108, 110, 112, 114, 116, 118, 120]))) = Finite 92"
    by (simp add: candle_at_def js_eval)
  have hi: "math_max (map high (map candle_at (map Finite
        [92, 94, 96, 98, 100, 102, 104, 106, 108, 110, 112, 114, 116, 118, 120]))) = Finite 120"
    by (simp add: candle_at_def js_eval)
  have q: "round_digits (Finite 92) 2 = Finite 92" "round_digits (Finite 120) 2 = Finite 120"
    by (simp_all add: js_eval)
  show "supportZone r = Some (Finite 92)" "resistanceZone r = Some (Finite 120)"
    unfolding analyzeNifty_zones [OF assms] sixty_window lo hi q by simp_all
qed
section \<open>The one error\<close>

text \<open>
  C3. \<open>analyzeNifty\<close> fails, with the error "No candles provided for analysis", exactly
  when the candle sequence is empty, and that is the only error. For every non-empty
  sequence it returns a record, in which the five-day momentum, the support zone and the
  resistance zone are present.
\<close>

theorem analyzeNifty_fails_iff_empty:
  "(analyzeNifty candles = Inl (Error ''No candles provided for analysis'')) = (candles = [])
     \<and> isl (analyzeNifty candles) = (candles = [])
     \<and> (candles \<noteq> [] \<longrightarrow>
          (\<exists>r. analyzeNifty candles = Inr r \<and> momentumPct5Day r \<noteq> None
                 \<and> supportZone r \<noteq> None \<and> resistanceZone r \<noteq> None))"
proof (cases "candles = []")
  case True
  then show ?thesis by (simp add: analyzeNifty_Nil)
next
  case False
  then obtain r where r: "analyzeNifty candles = Inr r" using analyzeNifty_Inr by blast
  show ?thesis
    using False r analyzeNifty_momentum_present [OF r] analyzeNifty_zones [OF r] by simp
qed

theorem analyzeNifty_fails_iff_empty_witness:
  "analyzeNifty [] = Inl (Error ''No candles provided for analysis'')
     \<and> ten \<noteq> [] \<and> \<not> isl (analyzeNifty ten)
     \<and> (\<exists>r. analyzeNifty ten = Inr r \<and> momentumPct5Day r \<noteq> None
            \<and> supportZone r \<noteq> None \<and> resistanceZone r \<noteq> None)"
proof -
  have ne: "ten \<noteq> []" by (simp add: ten_def candles_at_def)
  show ?thesis
    using analyzeNifty_fails_iff_empty [of "[]"] analyzeNifty_fails_iff_empty [of ten] ne
    by simp
qed

section \<open>Bias\<close>

text \<open>
  C4. For every non-empty candle sequence, with \<open>sma20\<close> and \<open>sma50\<close> those of the last
  enriched point and \<open>lastClose\<close> the rounded last close: the bias is neutral when either
  average is absent or zero; when both are present and not zero, it is bullish exactly
  when \<open>lastClose > sma20\<close> and \<open>sma20 > sma50\<close>, bearish exactly when
  \<open>lastClose < sma20\<close> and \<open>sma20 < sma50\<close>, and neutral otherwise.
\<close>

theorem bias_rule:
  assumes "candles \<noteq> []"
  shows "\<exists>r. analyzeNifty candles = Inr r
     \<and> lastClose r = round_digits (close (last candles)) 2
     \<and> (let p = last (addIndicators candles)
        in (sma20 p = None \<or> sma50 p = None
              \<or> (\<exists>a. sma20 p = Some a \<and> is_zero a) \<or> (\<exists>b. sma50 p = Some b \<and> is_zero b)
              \<longrightarrow> bias r = Neutral)
         \<and> (\<forall>a b. sma20 p = Some a \<and> sma50 p = Some b \<and> \<not> is_zero a \<and> \<not> is_zero b \<longrightarrow>
               (bias r = Bullish) = (js_gt (lastClose r) a \<and> js_gt a b)
             \<and> (bias r = Bearish) = (js_lt (lastClose r) a \<and> js_lt a b)
             \<and> (bias r = Neutral) =
                 (\<not> (js_gt (lastClose r) a \<and> js_gt a b)
                  \<and> \<not> (js_lt (lastClose r) a \<and> js_lt a b))))"
proof -
  obtain r where r: "analyzeNifty candles = Inr r" using assms analyzeNifty_Inr by blast
  define p where "p = last (addIndicators candles)"
  note b = analyzeNifty_bias [OF r, unfolded Let_def, folded p_def]
  have absent: "bias r = Neutral"
    if "sma20 p = None \<or> sma50 p = None
          \<or> (\<exists>a. sma20 p = Some a \<and> is_zero a) \<or> (\<exists>b. sma50 p = Some b \<and> is_zero b)"
    using that unfolding b by (auto simp: js_truthy_def)
  have present: "(bias r = Bullish) = (js_gt (lastClose r) a \<and> js_gt a b)
             \<and> (bias r = Bearish) = (js_lt (lastClose r) a \<and> js_lt a b)
             \<and> (bias r = Neutral) =
                 (\<not> (js_gt (lastClose r) a \<and> js_gt a b)
                  \<and> \<not> (js_lt (lastClose r) a \<and> js_lt a b))"
    if "sma20 p = Some a" "sma50 p = Some b" "\<not> is_zero a" "\<not> is_zero b" for a b
  proof (cases "js_truthy a \<and> js_truthy b")
    case True
    then show ?thesis
      unfolding b that(1,2) using js_lt_asym [of a b] by (auto simp: js_gt_def)
  next
    case False
    then have "a = NaN \<or> b = NaN" using that(3,4) not_truthy by blast
    then show ?thesis
      unfolding b that(1,2) using False by auto
  qed
  show ?thesis
    apply (rule exI [of _ r])
    unfolding Let_def p_def [symmetric]
    using r analyzeNifty_lastClose [OF r] absent present by blast
qed

text \<open>
  On the sixty rising candles the last close is 120, \<open>sma20\<close> is 101 and \<open>sma50\<close> is 71,
  so the bias is bullish.
\<close>

theorem bias_rule_witness:
  "sixty \<noteq> [] \<and> map_sum id lastClose (analyzeNifty sixty) = Inr (Finite 120)
     \<and> map_sum id bias (analyzeNifty sixty) = Inr Bullish"
proof -
  obtain r where r: "analyzeNifty sixty = Inr r"
    and l: "lastClose r = round_digits (close (last sixty)) 2"
    and b: "\<forall>a b. Some (Finite 101) = Some a \<and> Some (Finite 71) = Some b
                 \<and> \<not> is_zero a \<and> \<not> is_zero b \<longrightarrow>
               (bias r = Bullish) = (js_gt (lastClose r) a \<and> js_gt a b)
             \<and> (bias r = Bearish) = (js_lt (lastClose r) a \<and> js_lt a b)
             \<and> (bias r = Neutral) =
                 (\<not> (js_gt (lastClose r) a \<and> js_gt a b)
                  \<and> \<not> (js_lt (lastClose r) a \<and> js_lt a b))"
    using bias_rule [OF sixty_length(2)] unfolding Let_def sixty_sma20 sixty_sma50 by blast
  have c: "lastClose r = Finite 120"
    unfolding l sixty_last by (simp add: candle_at_def js_eval)
  have "(bias r = Bullish) = (js_gt (lastClose r) (Finite 101) \<and> js_gt (Finite 101) (Finite 71))"
    using b [rule_format, of "Finite 101" "Finite 71"] by (simp add: is_zero_def)
  then have "bias r = Bullish" unfolding c by (simp add: js_gt_def js_lt_def)
  then show ?thesis using r c sixty_length(2) by simp
qed

section \<open>Headline and narrative\<close>

text \<open>
  C6. For every non-empty candle sequence the headline and the narrative follow the rule
  table: neutral bias gives "Sideways consolidation likely"; bullish bias gives "Uptrend
  extended but stretched" when \<open>rsi14\<close> is present and above 68 and "Upside continuation
  favoured" otherwise; bearish bias gives "Downtrend oversold" when \<open>rsi14\<close> is present
  and below 32 and "Downside pressure building" otherwise; the narrative is the template
  of the same row.
\<close>

theorem headline_rule:
  assumes "candles \<noteq> []"
  shows "\<exists>r. analyzeNifty candles = Inr r
     \<and> NiftyAnalysis.rsi14 r = IndicatorPoint.rsi14 (last (addIndicators candles))
     \<and> (bias r = Neutral \<longrightarrow>
          nextMoveHeadline r = ''Sideways consolidation likely''
          \<and> narrative r =
              [Lit ''Nifty appears range-bound as key moving averages converge. Traders may focus on breakouts from recent levels.''])
     \<and> (\<forall>v. bias r = Bullish \<and> NiftyAnalysis.rsi14 r = Some v \<and> js_gt v (Finite 68) \<longrightarrow>
          nextMoveHeadline r = ''Uptrend extended but stretched''
          \<and> narrative r =
              [Lit ''Momentum stays positive with price riding above the 20-day average, though RSI at '',
               Num v,
               Lit '' signals potential cooling. Pullbacks toward '',
               interp (sma20 (last (addIndicators candles))) ''the 20-day SMA'',
               Lit '' could offer dip opportunities while '',
               interp (supportZone r) ''recent support'',
               Lit '' holds.''])
     \<and> (bias r = Bullish \<and> \<not> (\<exists>v. NiftyAnalysis.rsi14 r = Some v \<and> js_gt v (Finite 68)) \<longrightarrow>
          nextMoveHeadline r = ''Upside continuation favoured''
          \<and> narrative r =
              [Lit ''Price holds above the rising 20- and 50-day averages with '',
               (case momentumPct5Day r of Some m \<Rightarrow> Num m | None \<Rightarrow> Num (Finite 0)),
               Lit ''% five-day momentum. A sustained move above '',
               interp (resistanceZone r) ''recent highs'',
               Lit '' would extend the rally, while '',
               interp (supportZone r) ''nearby support'',
               Lit '' remains the risk marker.''])
     \<and> (\<forall>v. bias r = Bearish \<and> NiftyAnalysis.rsi14 r = Some v \<and> js_lt v (Finite 32) \<longrightarrow>
          nextMoveHeadline r = ''Downtrend oversold''
          \<and> narrative r =
              [Lit ''Nifty is trading beneath its short- and medium-term averages with RSI at '',
               Num v,
               Lit '', flagging a stretched sell-off. A pause or mean reversion bounce is possible unless '',
               interp (supportZone r) ''support'',
               Lit '' breaks decisively.''])
     \<and> (bias r = Bearish \<and> \<not> (\<exists>v. NiftyAnalysis.rsi14 r = Some v \<and> js_lt v (Finite 32)) \<longrightarrow>
          nextMoveHeadline r = ''Downside pressure building''
          \<and> narrative r =
              [Lit ''Lower highs persist beneath the 20- and 50-day averages. Momentum over the last week sits at '',
               (case momentumPct5Day r of Some m \<Rightarrow> Num m | None \<Rightarrow> Num (Finite 0)),
               Lit ''%. Losing '',
               interp (supportZone r) ''recent support'',
               Lit '' would unlock deeper retracements, while reclaiming '',
               interp (sma20 (last (addIndicators candles))) ''the 20-day SMA'',
               Lit '' is needed to neutralise the trend.''])"
proof -
  obtain r where r: "analyzeNifty candles = Inr r" using assms analyzeNifty_Inr by blast
  note h = analyzeNifty_nextMoveHeadline [OF r]
  note n = analyzeNifty_narrative [OF r]
  have neutral: "nextMoveHeadline r = ''Sideways consolidation likely''
      \<and> narrative r =
          [Lit ''Nifty appears range-bound as key moving averages converge. Traders may focus on breakouts from recent levels.'']"
    if "bias r = Neutral"
    unfolding h n Let_def that by simp
  have stretched: "nextMoveHeadline r = ''Uptrend extended but stretched''
      \<and> narrative r =
          [Lit ''Momentum stays positive with price riding above the 20-day average, though RSI at '',
           Num v,
           Lit '' signals potential cooling. Pullbacks toward '',
           interp (sma20 (last (addIndicators candles))) ''the 20-day SMA'',
           Lit '' could offer dip opportunities while '',
           interp (supportZone r) ''recent support'',
           Lit '' holds.'']"
    if "bias r = Bullish" "NiftyAnalysis.rsi14 r = Some v" "js_gt v (Finite 68)" for v
    unfolding h n Let_def that(1,2) using that(3) by simp
  have continuation: "nextMoveHeadline r = ''Upside continuation favoured''
      \<and> narrative r =
          [Lit ''Price holds above the rising 20- and 50-day averages with '',
           (case momentumPct5Day r of Some m \<Rightarrow> Num m | None \<Rightarrow> Num (Finite 0)),
           Lit ''% five-day momentum. A sustained move above '',
           interp (resistanceZone r) ''recent highs'',
           Lit '' would extend the rally, while '',
           interp (supportZone r) ''nearby support'',
           Lit '' remains the risk marker.'']"
    if "bias r = Bullish" "\<not> (\<exists>v. NiftyAnalysis.rsi14 r = Some v \<and> js_gt v (Finite 68))"
  proof -
    have c: "(NiftyAnalysis.rsi14 r \<noteq> None \<and> js_gt (the (NiftyAnalysis.rsi14 r)) (Finite 68))
               = False"
      using that(2) by (cases "NiftyAnalysis.rsi14 r") auto
    show ?thesis unfolding h n Let_def that(1) c by simp
  qed
  have oversold: "nextMoveHeadline r = ''Downtrend oversold''
      \<and> narrative r =
          [Lit ''Nifty is trading beneath its short- and medium-term averages with RSI at '',
           Num v,
           Lit '', flagging a stretched sell-off. A pause or mean reversion bounce is possible unless '',
           interp (supportZone r) ''support'',
           Lit '' breaks decisively.'']"
    if "bias r = Bearish" "NiftyAnalysis.rsi14 r = Some v" "js_lt v (Finite 32)" for v
    unfolding h n Let_def that(1,2) using that(3) by simp
  have pressure: "nextMoveHeadline r = ''Downside pressure building''
      \<and> narrative r =
          [Lit ''Lower highs persist beneath the 20- and 50-day averages. Momentum over the last week sits at '',
           (case momentumPct5Day r of Some m \<Rightarrow> Num m | None \<Rightarrow> Num (Finite 0)),
           Lit ''%. Losing '',
           interp (supportZone r) ''recent support'',
           Lit '' would unlock deeper retracements, while reclaiming '',
           interp (sma20 (last (addIndicators candles))) ''the 20-day SMA'',
           Lit '' is needed to neutralise the trend.'']"
    if "bias r = Bearish" "\<not> (\<exists>v. NiftyAnalysis.rsi14 r = Some v \<and> js_lt v (Finite 32))"
  proof -
    have c: "(NiftyAnalysis.rsi14 r \<noteq> None \<and> js_lt (the (NiftyAnalysis.rsi14 r)) (Finite 32))
               = False"
      using that(2) by (cases "NiftyAnalysis.rsi14 r") auto
    show ?thesis unfolding h n Let_def that(1) c by simp
  qed
  show ?thesis
    apply (rule exI [of _ r])
    using r analyzeNifty_rsi14 [OF r] neutral stretched continuation oversold pressure
    by blast
qed

text \<open>
  The sixty rising candles are bullish with \<open>rsi14\<close> at 100: the headline is "Uptrend
  extended but stretched" and the narrative interpolates 100, the \<open>sma20\<close> of 101 and the
  support zone of 92.
\<close>

theorem headline_rule_witness:
  "sixty \<noteq> []
     \<and> map_sum id nextMoveHeadline (analyzeNifty sixty) = Inr ''Uptrend extended but stretched''
     \<and> map_sum id narrative (analyzeNifty sixty) =
         Inr [Lit ''Momentum stays positive with price riding above the 20-day average, though RSI at '',
              Num (Finite 100),
              Lit '' signals potential cooling. Pullbacks toward '',
              Num (Finite 101),
              Lit '' could offer dip opportunities while '',
              Num (Finite 92),
              Lit '' holds.'']"
proof -
  obtain r where r: "analyzeNifty sixty = Inr r"
    and v: "NiftyAnalysis.rsi14 r = IndicatorPoint.rsi14 (last (addIndicators sixty))"
    and s: "\<forall>v. bias r = Bullish \<and> NiftyAnalysis.rsi14 r = Some v \<and> js_gt v (Finite 68) \<longrightarrow>
          nextMoveHeadline r = ''Uptrend extended but stretched''
          \<and> narrative r =
              [Lit ''Momentum stays positive with price riding above the 20-day average, though RSI at '',
               Num v,
               Lit '' signals potential cooling. Pullbacks toward '',
               interp (sma20 (last (addIndicators sixty))) ''the 20-day SMA'',
               Lit '' could offer dip opportunities while '',
               interp (supportZone r) ''recent support'',
               Lit '' holds.'']"
    using headline_rule [OF sixty_length(2)] by blast
  have "js_gt (Finite 100) (Finite 68)" by (simp add: js_gt_def js_lt_def)
  then have "bias r = Bullish \<and> NiftyAnalysis.rsi14 r = Some (Finite 100)
      \<and> js_gt (Finite 100) (Finite 68)"
    using sixty_bias [OF r] v sixty_rsi14 by simp
  with s have "nextMoveHeadline r = ''Uptrend extended but stretched''
          \<and> narrative r =
              [Lit ''Momentum stays positive with price riding above the 20-day average, though RSI at '',
               Num (Finite 100),
               Lit '' signals potential cooling. Pullbacks toward '',
               interp (sma20 (last (addIndicators sixty))) ''the 20-day SMA'',
               Lit '' could offer dip opportunities while '',
               interp (supportZone r) ''recent support'',
               Lit '' holds.'']"
    by blast
  then show ?thesis
    using r sixty_length(2) unfolding sixty_sma20 sixty_zones(1) [OF r] by simp
qed
section \<open>Rounding\<close>

lemma round_digits_2:
  "round_digits v 2 = js_div (math_round (js_mul v (Finite 100))) (Finite 100)"
  by (simp add: round_digits_def Let_def)

lemma val_math_round: "val (math_round (Finite p)) = of_int \<lfloor>p + 1 / 2\<rfloor>"
  by (simp add: integer_result_def signed_zero_def)

lemma math_round_NegZero: "(math_round (Finite p) = NegZero) = (- 1 / 2 \<le> p \<and> p < 0)"
proof -
  have "(\<lfloor>p + 1 / 2\<rfloor> = 0) = (- 1 / 2 \<le> p \<and> p < 1 / 2)"
    by (simp add: floor_eq_iff) linarith
  then show ?thesis
    by (auto simp: integer_result_def signed_zero_def)
qed

lemma floor_half_neg:
  fixes x :: real
  assumes "frac x \<noteq> 1 / 2"
  shows "- \<lfloor>- x + 1 / 2\<rfloor> = \<lfloor>x + 1 / 2\<rfloor>"
proof -
  define k where "k = \<lfloor>- x + 1 / 2\<rfloor>"
  have lo: "of_int k \<le> - x + 1 / 2" and hi: "- x + 1 / 2 < of_int k + 1"
    unfolding k_def by linarith+
  have "x + 1 / 2 \<noteq> of_int (- k) + 1"
  proof
    assume "x + 1 / 2 = of_int (- k) + 1"
    then have x: "x = of_int (- k) + 1 / 2" by simp
    then have "\<lfloor>x\<rfloor> = - k" by (intro floor_unique) simp_all
    then show False using assms x by (simp add: frac_def)
  qed
  then have "x + 1 / 2 < of_int (- k) + 1" using lo by simp
  moreover have "of_int (- k) \<le> x + 1 / 2" using hi by simp
  ultimately have "\<lfloor>x + 1 / 2\<rfloor> = - k" by (rule floor_unique [rotated])
  then show ?thesis by (simp add: k_def)
qed

lemma floor_half_tie:
  fixes x :: real
  assumes "frac x = 1 / 2"
  shows "of_int \<lfloor>x + 1 / 2\<rfloor> = x + 1 / 2"
    and "- of_int \<lfloor>- x + 1 / 2\<rfloor> = (of_int \<lfloor>x + 1 / 2\<rfloor> - 1 :: real)"
proof -
  have x: "x = of_int \<lfloor>x\<rfloor> + 1 / 2" using assms by (simp add: frac_def)
  have "x + 1 / 2 = of_int (\<lfloor>x\<rfloor> + 1)" using x by simp
  then have f: "\<lfloor>x + 1 / 2\<rfloor> = \<lfloor>x\<rfloor> + 1" by (metis floor_of_int)
  then show "of_int \<lfloor>x + 1 / 2\<rfloor> = x + 1 / 2" using x by simp
  have "- x + 1 / 2 = of_int (- \<lfloor>x\<rfloor>)" using x by simp
  then have "\<lfloor>- x + 1 / 2\<rfloor> = - \<lfloor>x\<rfloor>" by (metis floor_of_int)
  then show "- of_int \<lfloor>- x + 1 / 2\<rfloor> = (of_int \<lfloor>x + 1 / 2\<rfloor> - 1 :: real)"
    using f by simp
qed

text \<open>
  C7, as amended. \<open>round (v, 2)\<close> is \<open>Math.round (v * 100) / 100\<close> in binary64: the
  product is rounded to a binary64 value \<open>p\<close>, \<open>Math.round\<close> takes \<open>p\<close> to an integer and
  the quotient by 100 is rounded to binary64 again. For every finite \<open>p\<close>,
  \<open>Math.round p\<close> is an integer at most one half away from \<open>p\<close>, the greater one at a
  tie; it is \<open>p\<close> rounded half away from zero for every \<open>p \<ge> 0\<close> and for every \<open>p\<close> that is
  not a tie, and one greater at a negative tie; it is the negative zero exactly for
  \<open>-0.5 \<le> p < 0\<close>.
\<close>

theorem round_binary64:
  "round_digits v 2 = js_div (math_round (js_mul v (Finite 100))) (Finite 100)
     \<and> val (math_round (Finite p)) \<in> \<int>
     \<and> \<bar>val (math_round (Finite p)) - p\<bar> \<le> 1 / 2
     \<and> (frac p = 1 / 2 \<longrightarrow> val (math_round (Finite p)) = p + 1 / 2)
     \<and> (0 \<le> p \<or> frac p \<noteq> 1 / 2 \<longrightarrow>
          val (math_round (Finite p)) / 100 = round_half_away_from_zero (p / 100))
     \<and> (p < 0 \<and> frac p = 1 / 2 \<longrightarrow>
          val (math_round (Finite p)) / 100 = round_half_away_from_zero (p / 100) + 1 / 100)
     \<and> (math_round (Finite p) = NegZero) = (- 1 / 2 \<le> p \<and> p < 0)"
proof -
  note rd = val_math_round [of p]
  have int: "val (math_round (Finite p)) \<in> \<int>" unfolding rd by simp
  have near: "\<bar>val (math_round (Finite p)) - p\<bar> \<le> 1 / 2" unfolding rd by linarith
  have tie: "val (math_round (Finite p)) = p + 1 / 2" if "frac p = 1 / 2"
    unfolding rd using floor_half_tie(1) [OF that] .
  have pos: "val (math_round (Finite p)) / 100 = round_half_away_from_zero (p / 100)"
    if "0 \<le> p"
  proof (cases "p = 0")
    case True
    then show ?thesis unfolding rd by (simp add: round_half_away_from_zero_def)
  next
    case False
    with that have "0 < p" by simp
    then show ?thesis unfolding rd by (simp add: round_half_away_from_zero_def)
  qed
  have neg: "val (math_round (Finite p)) / 100 = round_half_away_from_zero (p / 100)"
    if "p < 0" "frac p \<noteq> 1 / 2"
  proof -
    have "\<bar>p / 100 * 100\<bar> = - p" using that(1) by simp
    then have "round_half_away_from_zero (p / 100) = of_int (- \<lfloor>- p + 1 / 2\<rfloor>) / 100"
      using that(1) by (simp add: round_half_away_from_zero_def)
    also have "\<dots> = of_int \<lfloor>p + 1 / 2\<rfloor> / 100"
      by (simp only: floor_half_neg [OF that(2)])
    finally show ?thesis unfolding rd by simp
  qed
  have negtie: "val (math_round (Finite p)) / 100 = round_half_away_from_zero (p / 100) + 1 / 100"
    if "p < 0" "frac p = 1 / 2"
  proof -
    have "\<bar>p / 100 * 100\<bar> = - p" using that(1) by simp
    then have "round_half_away_from_zero (p / 100) = - of_int \<lfloor>- p + 1 / 2\<rfloor> / 100"
      using that(1) by (simp add: round_half_away_from_zero_def)
    also have "\<dots> = (of_int \<lfloor>p + 1 / 2\<rfloor> - 1) / 100"
      by (simp only: floor_half_tie(2) [OF that(2)])
    finally show ?thesis unfolding rd by (simp add: diff_divide_distrib)
  qed
  show ?thesis
    using round_digits_2 [of v] int near tie pos neg negtie math_round_NegZero [of p]
    by (cases "0 \<le> p") auto
qed

text \<open>
  At \<open>-0.125\<close> the product is the tie \<open>-12.5\<close> and the result the binary64 value of
  \<open>-0.12\<close>, where rounding half away from zero gives \<open>-0.13\<close>; at \<open>0.125\<close> both give
  \<open>0.13\<close>. The binary64 value of \<open>1.115\<close> is below \<open>1.115\<close>, but its product with 100 is
  rounded to \<open>111.5\<close> and the result is \<open>1.12\<close>; the product of \<open>-0.005\<close> with 100 is \<open>-0.5\<close>
  and the result the negative zero.
\<close>

theorem round_binary64_witness:
  "frac (- 25 / 2 :: real) = 1 / 2
     \<and> round_digits (Finite (- 1 / 8)) 2 = fl (- 12 / 100)
     \<and> val (math_round (Finite (- 25 / 2))) = - 12
     \<and> round_half_away_from_zero (- 1 / 8) = - 13 / 100
     \<and> round_digits (Finite (1 / 8)) 2 = fl (13 / 100)
     \<and> val (math_round (Finite (25 / 2))) = 13
     \<and> round_half_away_from_zero (1 / 8) = 13 / 100
     \<and> val (fl (1115 / 1000)) < 1115 / 1000
     \<and> round_digits (fl (1115 / 1000)) 2 = fl (112 / 100)
     \<and> round_digits (fl (- 5 / 1000)) 2 = NegZero"
proof -
  have f: "frac (- 25 / 2 :: real) = 1 / 2" "frac (25 / 2 :: real) = 1 / 2"
    by (simp_all add: frac_def)
  have a: "round_half_away_from_zero (- 25 / 2 / 100) = - 13 / 100"
    and b: "round_half_away_from_zero (25 / 2 / 100) = 13 / 100"
    and a': "round_half_away_from_zero (- 1 / 8) = - 13 / 100"
    and b': "round_half_away_from_zero (1 / 8) = 13 / 100"
    by (simp_all add: round_half_away_from_zero_def)
  have m: "js_mul (Finite (- 1 / 8)) (Finite 100) = Finite (- 25 / 2)"
    "js_mul (Finite (1 / 8)) (Finite 100) = Finite (25 / 2)"
    "js_mul (fl (1115 / 1000)) (Finite 100) = Finite (223 / 2)"
    "js_mul (fl (- 5 / 1000)) (Finite 100) = Finite (- 1 / 2)"
    by (simp_all add: js_arith)
  have r: "math_round (Finite (- 25 / 2)) = Finite (- 12)"
    "math_round (Finite (25 / 2)) = Finite 13"
    "math_round (Finite (223 / 2)) = Finite 112"
    "math_round (Finite (- 1 / 2)) = NegZero"
    by (simp_all add: js_arith)
  have d: "js_div (Finite (- 12)) (Finite 100) = fl (- 12 / 100)"
    "js_div (Finite 13) (Finite 100) = fl (13 / 100)"
    "js_div (Finite 112) (Finite 100) = fl (112 / 100)"
    "js_div NegZero (Finite 100) = NegZero"
    by (simp_all add: js_arith)
  have l: "val (fl (1115 / 1000)) < 1115 / 1000"
    by (simp add: js_arith)
  show ?thesis
    using round_binary64 [of "Finite (- 1 / 8)" "- 25 / 2"]
      round_binary64 [of "Finite (1 / 8)" "25 / 2"]
      round_binary64 [of "fl (1115 / 1000)" "223 / 2"]
      round_binary64 [of "fl (- 5 / 1000)" "- 1 / 2"]
    unfolding m r d a b
    using f a' b' l by simp
qed

text \<open>
  C7, as stated, fails at \<open>v = -0.125\<close>: \<open>round\<close> gives the binary64 value of \<open>-0.12\<close>,
  rounding half away from zero gives \<open>-0.13\<close>.
\<close>

theorem round_half_away_counterexample:
  "round_digits (Finite (- 1 / 8)) 2 = fl (- 12 / 100)
     \<and> round_half_away_from_zero (- 1 / 8) = - 13 / 100
     \<and> fl (- 12 / 100) \<noteq> fl (- 13 / 100)
     \<and> val (fl (- 12 / 100)) \<noteq> - 13 / 100"
proof -
  have "round_digits (Finite (- 1 / 8)) 2 = fl (- 12 / 100)"
    by (simp add: js_eval)
  moreover have "round_half_away_from_zero (- 1 / 8) = - 13 / 100"
    by (simp add: round_half_away_from_zero_def)
  moreover have "fl (- 12 / 100) \<noteq> fl (- 13 / 100)" "val (fl (- 12 / 100)) \<noteq> - 13 / 100"
    by (simp_all add: js_arith)
  ultimately show ?thesis by simp
qed
section \<open>Support and resistance\<close>

lemma js_le_not_NaN: "js_le a b \<Longrightarrow> a \<noteq> NaN \<and> b \<noteq> NaN"
  by (simp add: js_le_def)

lemma min2_least:
  assumes "a \<noteq> NaN" "b \<noteq> NaN"
  shows "(min2 a b = a \<or> min2 a b = b) \<and> js_le (min2 a b) a \<and> js_le (min2 a b) b"
  using assms js_lt_asym [of a b] js_lt_asym [of a a] js_lt_asym [of b b]
  by (auto simp: min2_def js_le_def)

lemma max2_greatest:
  assumes "a \<noteq> NaN" "b \<noteq> NaN"
  shows "(max2 a b = a \<or> max2 a b = b) \<and> js_le a (max2 a b) \<and> js_le b (max2 a b)"
  using assms js_lt_asym [of a b] js_lt_asym [of a a] js_lt_asym [of b b]
  by (auto simp: max2_def js_le_def)

lemma foldl_min2:
  assumes "acc \<noteq> NaN" "\<forall>x \<in> set xs. x \<noteq> NaN"
  shows "(foldl min2 acc xs = acc \<or> foldl min2 acc xs \<in> set xs)
     \<and> js_le (foldl min2 acc xs) acc
     \<and> (\<forall>x \<in> set xs. js_le (foldl min2 acc xs) x)"
  using assms
proof (induction xs arbitrary: acc)
  case Nil
  then show ?case by (simp add: js_le_refl)
next
  case (Cons x xs)
  have x: "x \<noteq> NaN" and xs: "\<forall>y \<in> set xs. y \<noteq> NaN" using Cons.prems(2) by simp_all
  note m = min2_least [OF Cons.prems(1) x]
  then have n: "min2 acc x \<noteq> NaN" using js_le_not_NaN by blast
  note ih = Cons.IH [OF n xs]
  have "js_le (foldl min2 (min2 acc x) xs) acc" "js_le (foldl min2 (min2 acc x) xs) x"
    using ih m js_le_trans by blast+
  then show ?case using ih m by auto
qed

lemma foldl_max2:
  assumes "acc \<noteq> NaN" "\<forall>x \<in> set xs. x \<noteq> NaN"
  shows "(foldl max2 acc xs = acc \<or> foldl max2 acc xs \<in> set xs)
     \<and> js_le acc (foldl max2 acc xs)
     \<and> (\<forall>x \<in> set xs. js_le x (foldl max2 acc xs))"
  using assms
proof (induction xs arbitrary: acc)
  case Nil
  then show ?case by (simp add: js_le_refl)
next
  case (Cons x xs)
  have x: "x \<noteq> NaN" and xs: "\<forall>y \<in> set xs. y \<noteq> NaN" using Cons.prems(2) by simp_all
  note m = max2_greatest [OF Cons.prems(1) x]
  then have n: "max2 acc x \<noteq> NaN" using js_le_not_NaN by blast
  note ih = Cons.IH [OF n xs]
  have "js_le acc (foldl max2 (max2 acc x) xs)" "js_le x (foldl max2 (max2 acc x) xs)"
    using ih m js_le_trans by blast+
  then show ?case using ih m by auto
qed

lemma math_min_least:
  assumes "xs \<noteq> []" "\<forall>x \<in> set xs. x \<noteq> NaN"
  shows "math_min xs \<in> set xs" and "\<forall>x \<in> set xs. js_le (math_min xs) x"
proof -
  have f: "(math_min xs = PosInf \<or> math_min xs \<in> set xs)
      \<and> (\<forall>x \<in> set xs. js_le (math_min xs) x)"
    using foldl_min2 [of PosInf xs] assms(2) by (simp add: math_min_def)
  then show "\<forall>x \<in> set xs. js_le (math_min xs) x" by simp
  show "math_min xs \<in> set xs"
  proof (cases "math_min xs = PosInf")
    case True
    have "hd xs \<in> set xs" using assms(1) by simp
    then have "js_le PosInf (hd xs)" using f True by auto
    then have "hd xs = PosInf" by (cases "hd xs") (simp_all add: js_le_def js_lt_def)
    then show ?thesis using True \<open>hd xs \<in> set xs\<close> by simp
  next
    case False
    then show ?thesis using f by simp
  qed
qed

lemma math_max_greatest:
  assumes "xs \<noteq> []" "\<forall>x \<in> set xs. x \<noteq> NaN"
  shows "math_max xs \<in> set xs" and "\<forall>x \<in> set xs. js_le x (math_max xs)"
proof -
  have f: "(math_max xs = NegInf \<or> math_max xs \<in> set xs)
      \<and> (\<forall>x \<in> set xs. js_le x (math_max xs))"
    using foldl_max2 [of NegInf xs] assms(2) by (simp add: math_max_def)
  then show "\<forall>x \<in> set xs. js_le x (math_max xs)" by simp
  show "math_max xs \<in> set xs"
  proof (cases "math_max xs = NegInf")
    case True
    have "hd xs \<in> set xs" using assms(1) by simp
    then have "js_le (hd xs) NegInf" using f True by auto
    then have "hd xs = NegInf" by (cases "hd xs") (simp_all add: js_le_def js_lt_def)
    then show ?thesis using True \<open>hd xs \<in> set xs\<close> by simp
  next
    case False
    then show ?thesis using f by simp
  qed
qed

text \<open>
  C10, as amended. For every non-empty candle sequence both zones are present. With \<open>m\<close>
  the \<open>Math.min\<close> of the lows and \<open>M\<close> the \<open>Math.max\<close> of the highs of the last
  \<open>min (15, length)\<close> candles, the support zone is \<open>Math.round (m * 100) / 100\<close> and the
  resistance zone \<open>Math.round (M * 100) / 100\<close>, computed in binary64. If \<open>low <= high\<close>
  holds in every candle, then \<open>m\<close> is a low of the window that is below every low of it,
  \<open>M\<close> a high of the window that is above every high of it, and the support zone is
  below or equal to the resistance zone.
\<close>

theorem zones_binary64:
  assumes "candles \<noteq> []"
  shows "\<exists>r s t. analyzeNifty candles = Inr r
     \<and> supportZone r = Some s \<and> resistanceZone r = Some t
     \<and> (let w = drop (length candles - min 15 (length candles)) candles;
             m = math_min (map low w);
             M = math_max (map high w)
         in s = js_div (math_round (js_mul m (Finite 100))) (Finite 100)
          \<and> t = js_div (math_round (js_mul M (Finite 100))) (Finite 100)
          \<and> ((\<forall>c \<in> set candles. js_le (low c) (high c)) \<longrightarrow>
                m \<in> low ` set w \<and> (\<forall>c \<in> set w. js_le m (low c))
              \<and> M \<in> high ` set w \<and> (\<forall>c \<in> set w. js_le (high c) M)
              \<and> js_le s t))"
proof -
  obtain r where r: "analyzeNifty candles = Inr r" using assms analyzeNifty_Inr by blast
  define w where "w = drop (length candles - 15) candles"
  define m where "m = math_min (map low w)"
  define M where "M = math_max (map high w)"
  have w: "w \<noteq> []" unfolding w_def using recent_nonempty [OF assms] .
  have s: "supportZone r = Some (round_digits m 2)"
    and t: "resistanceZone r = Some (round_digits M 2)"
    using analyzeNifty_zones [OF r] by (simp_all add: m_def M_def w_def)
  have ordered: "m \<in> low ` set w \<and> (\<forall>c \<in> set w. js_le m (low c))
      \<and> M \<in> high ` set w \<and> (\<forall>c \<in> set w. js_le (high c) M)
      \<and> js_le (round_digits m 2) (round_digits M 2)"
    if v: "\<forall>c \<in> set candles. js_le (low c) (high c)"
  proof -
    have sub: "set w \<subseteq> set candles" unfolding w_def by (rule set_drop_subset)
    have lows: "\<forall>x \<in> set (map low w). x \<noteq> NaN" and highs: "\<forall>x \<in> set (map high w). x \<noteq> NaN"
      using v sub js_le_not_NaN by auto
    have ne: "map low w \<noteq> []" "map high w \<noteq> []" using w by simp_all
    have a: "m \<in> low ` set w" "\<forall>c \<in> set w. js_le m (low c)"
      using math_min_least [OF ne(1) lows] by (simp_all add: m_def)
    have b: "M \<in> high ` set w" "\<forall>c \<in> set w. js_le (high c) M"
      using math_max_greatest [OF ne(2) highs] by (simp_all add: M_def)
    have c: "hd w \<in> set w" "hd w \<in> set candles" using w sub by auto
    have "js_le m (low (hd w))" "js_le (low (hd w)) (high (hd w))" "js_le (high (hd w)) M"
      using a(2) b(2) c v by auto
    then have "js_le m M" using js_le_trans by blast
    then have "js_le (round_digits m 2) (round_digits M 2)" by (rule round_digits_mono)
    then show ?thesis using a b by simp
  qed
  show ?thesis
    apply (rule exI [of _ r])
    apply (rule exI [of _ "round_digits m 2"])
    apply (rule exI [of _ "round_digits M 2"])
    unfolding Let_def recent_window w_def [symmetric] m_def [symmetric] M_def [symmetric]
    using r s t ordered by (simp add: round_digits_2)
qed

lemma two_bars_zones:
  "js_div (math_round (js_mul (math_min (map low two_bars)) (Finite 100))) (Finite 100)
     = fl (112 / 100)"
  "js_div (math_round (js_mul (math_max (map high two_bars)) (Finite 100))) (Finite 100)
     = fl (413 / 100)"
proof -
  have m: "math_min (map low two_bars) = fl (1115 / 1000)"
    by (simp add: two_bars_def js_arith)
  have M: "math_max (map high two_bars) = Finite (33 / 8)"
    by (simp add: two_bars_def js_arith)
  have a: "js_mul (fl (1115 / 1000)) (Finite 100) = Finite (223 / 2)"
    "js_mul (Finite (33 / 8)) (Finite 100) = Finite (825 / 2)"
    by (simp_all add: js_arith)
  have b: "math_round (Finite (223 / 2)) = Finite 112"
    "math_round (Finite (825 / 2)) = Finite 413"
    by (simp_all add: js_arith)
  have c: "js_div (Finite 112) (Finite 100) = fl (112 / 100)"
    "js_div (Finite 413) (Finite 100) = fl (413 / 100)"
    by (simp_all add: js_arith)
  show "js_div (math_round (js_mul (math_min (map low two_bars)) (Finite 100))) (Finite 100)
     = fl (112 / 100)"
    unfolding m a b c ..
  show "js_div (math_round (js_mul (math_max (map high two_bars)) (Finite 100))) (Finite 100)
     = fl (413 / 100)"
    unfolding M a b c ..
qed

text \<open>
  On the two candles of \<open>two_bars\<close> the least low is the binary64 value of \<open>1.115\<close>, whose
  product with 100 is rounded to \<open>111.5\<close>, and the support zone is the binary64 value of
  \<open>1.12\<close>; the greatest high is \<open>4.125\<close> and the resistance zone the binary64 value of
  \<open>4.13\<close>.
\<close>

theorem zones_binary64_witness:
  "two_bars \<noteq> []
     \<and> map_sum id supportZone (analyzeNifty two_bars) = Inr (Some (fl (112 / 100)))
     \<and> map_sum id resistanceZone (analyzeNifty two_bars) = Inr (Some (fl (413 / 100)))
     \<and> js_le (fl (112 / 100)) (fl (413 / 100))"
proof -
  have ne: "two_bars \<noteq> []" by (simp add: two_bars_def)
  have v: "\<forall>c \<in> set two_bars. js_le (low c) (high c)"
    by (simp add: two_bars_def js_arith)
  have w: "drop (length two_bars - min 15 (length two_bars)) two_bars = two_bars"
    by (simp add: two_bars_def)
  obtain r s t where r: "analyzeNifty two_bars = Inr r"
    and z: "supportZone r = Some s" "resistanceZone r = Some t"
    and s: "s = js_div (math_round (js_mul (math_min (map low two_bars)) (Finite 100)))
                  (Finite 100)"
    and t: "t = js_div (math_round (js_mul (math_max (map high two_bars)) (Finite 100)))
                  (Finite 100)"
    and o: "js_le s t"
    using zones_binary64 [OF ne] v unfolding Let_def w by blast
  show ?thesis
    using ne r z o unfolding s t two_bars_zones by simp
qed

text \<open>
  C10, as stated, fails on one candle whose low is the binary64 value of \<open>1.115\<close>, which
  is below \<open>1.115\<close>: its rounding to two decimals is \<open>1.11\<close>, and the support zone of the
  program is the binary64 value of \<open>1.12\<close>.
\<close>

theorem support_zone_counterexample:
  "map_sum id supportZone (analyzeNifty single) = Inr (Some (fl (112 / 100)))
     \<and> math_min (map low single) = fl (1115 / 1000)
     \<and> round_half_away_from_zero (val (fl (1115 / 1000))) = 111 / 100
     \<and> fl (112 / 100) \<noteq> fl (111 / 100)
     \<and> val (fl (112 / 100)) \<noteq> 111 / 100"
proof -
  have ne: "single \<noteq> []" by (simp add: single_def)
  obtain r where r: "analyzeNifty single = Inr r" using ne analyzeNifty_Inr by blast
  have m: "math_min (map low single) = fl (1115 / 1000)"
    by (simp add: single_def candle_at_def js_arith)
  have w: "drop (length single - 15) single = single" by (simp add: single_def)
  have q: "round_digits (fl (1115 / 1000)) 2 = fl (112 / 100)"
    by (simp add: js_eval)
  have "supportZone r = Some (fl (112 / 100))"
    unfolding analyzeNifty_zones(1) [OF r] w m q ..
  moreover have "round_half_away_from_zero (val (fl (1115 / 1000))) = 111 / 100"
    by (simp add: round_half_away_from_zero_def js_arith)
  moreover have "fl (112 / 100) \<noteq> fl (111 / 100)" "val (fl (112 / 100)) \<noteq> 111 / 100"
    by (simp_all add: js_arith)
  ultimately show ?thesis using r m by simp
qed
section \<open>The range of the relative strength index\<close>


lemma js_add_finite1:
  assumes "is_finite a" "is_finite b"
  shows "js_add a b \<noteq> NaN"
  using assms fl_not_NaN [of "val a + val b"]
  by (cases a; cases b) (simp_all add: js_add_def signed_zero_def)









































end
